theory Spec2Isabelle
  imports Main "HOL-Library.Word"
begin

section \<open>Python values: bytes, str, exceptions\<close>

text \<open>
  The Debug Adapter Protocol client of \<^verbatim>\<open>debug.py\<close>. A Python \<^verbatim>\<open>bytes\<close> object is a list
  of 8-bit words, a Python \<^verbatim>\<open>str\<close> is a list of Unicode code points (naturals). The
  string literals of the source are all ASCII; \<open>lit\<close> reads one as a \<^verbatim>\<open>str\<close>, \<open>blit\<close> as
  \<^verbatim>\<open>bytes\<close>.
\<close>

type_synonym byte = "8 word"
type_synonym bytes = "byte list"
type_synonym str = "nat list"

definition lit :: "string \<Rightarrow> str" where
  "lit s = map of_char s"

definition blit :: "string \<Rightarrow> bytes" where
  "blit s = map (\<lambda>c. of_nat (of_char c)) s"

text \<open>
  The exception classes the code can raise. None is defined by \<^verbatim>\<open>debug.py\<close> itself:
  they are the interpreter's and the \<^verbatim>\<open>json\<close> module's. \<open>exn_mro\<close> lists the names of an
  exception's class and of its base classes, so \<open>name \<in> set (exn_mro e)\<close> reads
  \<^verbatim>\<open>isinstance(e, name)\<close>. All of them derive from \<^verbatim>\<open>Exception\<close>.
\<close>

datatype exn =
    AttributeError | IndexError | KeyError | TypeError | ValueError
  | JSONDecodeError | UnicodeDecodeError | UnicodeEncodeError
  | OSError | ConnectionRefusedError

fun exn_mro :: "exn \<Rightarrow> string list" where
  "exn_mro AttributeError = [''AttributeError'', ''Exception'', ''BaseException'']"
| "exn_mro IndexError = [''IndexError'', ''LookupError'', ''Exception'', ''BaseException'']"
| "exn_mro KeyError = [''KeyError'', ''LookupError'', ''Exception'', ''BaseException'']"
| "exn_mro TypeError = [''TypeError'', ''Exception'', ''BaseException'']"
| "exn_mro ValueError = [''ValueError'', ''Exception'', ''BaseException'']"
| "exn_mro JSONDecodeError =
     [''JSONDecodeError'', ''ValueError'', ''Exception'', ''BaseException'']"
| "exn_mro UnicodeDecodeError =
     [''UnicodeDecodeError'', ''UnicodeError'', ''ValueError'', ''Exception'', ''BaseException'']"
| "exn_mro UnicodeEncodeError =
     [''UnicodeEncodeError'', ''UnicodeError'', ''ValueError'', ''Exception'', ''BaseException'']"
| "exn_mro OSError = [''OSError'', ''Exception'', ''BaseException'']"
| "exn_mro ConnectionRefusedError =
     [''ConnectionRefusedError'', ''ConnectionError'', ''OSError'', ''Exception'',
      ''BaseException'']"

subsection \<open>Sequence operations of the source\<close>

definition is_prefix :: "'a list \<Rightarrow> 'a list \<Rightarrow> bool" where
  "is_prefix p xs = (take (length p) xs = p)"

text \<open>\<^verbatim>\<open>sub in xs\<close> on \<^verbatim>\<open>bytes\<close> and \<^verbatim>\<open>str\<close>: \<open>sub\<close> occurs as a contiguous slice.\<close>

fun contains :: "'a list \<Rightarrow> 'a list \<Rightarrow> bool" where
  "contains sub [] = (sub = [])"
| "contains sub (x # xs) = (is_prefix sub (x # xs) \<or> contains sub xs)"

text \<open>
  \<^verbatim>\<open>s.split(sep)\<close> for a non-empty separator: the pieces between the non-overlapping
  occurrences of \<open>sep\<close>, found left to right. \<open>cur\<close> is the piece being collected.
\<close>

fun split_go :: "'a list \<Rightarrow> 'a list \<Rightarrow> 'a list \<Rightarrow> 'a list list" where
  "split_go sep [] cur = [cur]"
| "split_go sep (x # xs) cur =
     (if is_prefix sep (x # xs) then cur # split_go sep (drop (length sep - 1) xs) []
      else split_go sep xs (cur @ [x]))"

definition split :: "'a list \<Rightarrow> 'a list \<Rightarrow> 'a list list" where
  "split s sep = split_go sep s []"

text \<open>\<^verbatim>\<open>sep.join(parts)\<close>.\<close>

fun join :: "'a list \<Rightarrow> 'a list list \<Rightarrow> 'a list" where
  "join sep [] = []"
| "join sep [p] = p"
| "join sep (p # q # ps) = p @ sep @ join sep (q # ps)"

subsection \<open>UTF-8\<close>

text \<open>
  \<^verbatim>\<open>s.encode("utf-8")\<close>: one to four bytes per code point; a surrogate code point cannot be
  encoded and raises UnicodeEncodeError.
\<close>

definition utf8_char :: "nat \<Rightarrow> bytes option" where
  "utf8_char c =
     (if c < 0x80 then Some [of_nat c]
      else if c < 0x800 then Some [of_nat (0xC0 + c div 64), of_nat (0x80 + c mod 64)]
      else if c < 0x10000 then
        (if 0xD800 \<le> c \<and> c \<le> 0xDFFF then None
         else Some [of_nat (0xE0 + c div 4096), of_nat (0x80 + c div 64 mod 64),
                    of_nat (0x80 + c mod 64)])
      else if c < 0x110000 then
        Some [of_nat (0xF0 + c div 262144), of_nat (0x80 + c div 4096 mod 64),
              of_nat (0x80 + c div 64 mod 64), of_nat (0x80 + c mod 64)]
      else None)"

fun encode_utf8 :: "str \<Rightarrow> exn + bytes" where
  "encode_utf8 [] = Inr []"
| "encode_utf8 (c # cs) =
     (case utf8_char c of
        None \<Rightarrow> Inl UnicodeEncodeError
      | Some bs \<Rightarrow> (case encode_utf8 cs of Inl e \<Rightarrow> Inl e | Inr r \<Rightarrow> Inr (bs @ r)))"

text \<open>
  \<^verbatim>\<open>b.decode("utf-8")\<close> in strict mode: a malformed, truncated or overlong sequence, an
  encoded surrogate and a value above U+10FFFF raise UnicodeDecodeError.
\<close>

definition utf8_follow :: "nat \<Rightarrow> nat" where
  "utf8_follow n = (if n < 0x80 then 0 else if n < 0xE0 then 1 else if n < 0xF0 then 2 else 3)"

definition utf8_lead :: "nat \<Rightarrow> nat" where
  "utf8_lead n =
     (if n < 0x80 then n else if n < 0xE0 then n - 0xC0 else if n < 0xF0 then n - 0xE0
      else n - 0xF0)"

definition utf8_min :: "nat \<Rightarrow> nat" where
  "utf8_min k = (if k = 0 then 0 else if k = 1 then 0x80 else if k = 2 then 0x800 else 0x10000)"

definition is_cont :: "byte \<Rightarrow> bool" where
  "is_cont b = (0x80 \<le> unat b \<and> unat b < 0xC0)"

fun decode_utf8 :: "bytes \<Rightarrow> exn + str" where
  "decode_utf8 [] = Inr []"
| "decode_utf8 (b # bs) =
     (let n = unat b; k = utf8_follow n; cs = take k bs;
          cp = foldl (\<lambda>a c. a * 64 + (unat c - 0x80)) (utf8_lead n) cs
      in if (0x80 \<le> n \<and> n < 0xC0) \<or> 0xF8 \<le> n then Inl UnicodeDecodeError
         else if length cs < k \<or> \<not> list_all is_cont cs then Inl UnicodeDecodeError
         else if cp < utf8_min k \<or> (0xD800 \<le> cp \<and> cp \<le> 0xDFFF) \<or> 0x10FFFF < cp
           then Inl UnicodeDecodeError
         else (case decode_utf8 (drop k bs) of Inl e \<Rightarrow> Inl e | Inr r \<Rightarrow> Inr (cp # r)))"

section \<open>JSON values and \<^verbatim>\<open>json.dumps\<close>\<close>

text \<open>
  The values \<^verbatim>\<open>json.loads\<close> returns and \<^verbatim>\<open>json.dumps\<close> accepts: None, bool, int, float,
  str, list, and dict with str keys (an association list in insertion order).
  Floating-point arithmetic is outside the model: a float is kept as the decimal
  literal it was read from (sign, integer part, fraction digits, exponent), so two
  literals of one IEEE value are different here, and the digits \<^verbatim>\<open>repr\<close> would choose for
  a float are not computed. No property below depends on either.
\<close>

datatype pyfloat = Float bool nat "nat list" "int option" | NaN | Infinity bool

datatype json =
    JNull | JBool bool | JInt int | JFloat pyfloat | JStr str
  | JArr "json list" | JObj "(str \<times> json) list"

text \<open>\<^verbatim>\<open>str(n)\<close> for an int: decimal digits, a minus sign when negative.\<close>

fun digits :: "nat \<Rightarrow> str" where
  "digits n = (if n < 10 then [48 + n] else digits (n div 10) @ [48 + n mod 10])"

declare digits.simps [simp del]

definition py_str_int :: "int \<Rightarrow> str" where
  "py_str_int i = (if i < 0 then 45 # digits (nat (- i)) else digits (nat i))"

definition float_repr :: "pyfloat \<Rightarrow> str" where
  "float_repr f =
     (case f of
        Float neg i fr ex \<Rightarrow>
          (if neg then [45] else []) @ digits i
          @ (if fr = [] then [] else 46 # map (\<lambda>d. 48 + d mod 10) fr)
          @ (case ex of None \<Rightarrow> [] | Some e \<Rightarrow> 101 # py_str_int e)
      | NaN \<Rightarrow> lit ''NaN''
      | Infinity neg \<Rightarrow> (if neg then lit ''-Infinity'' else lit ''Infinity''))"

text \<open>
  String escaping of \<^verbatim>\<open>json.dumps\<close> with its default \<^verbatim>\<open>ensure_ascii=True\<close>
  (\<^verbatim>\<open>py_encode_basestring_ascii\<close>): the quote, the backslash and the short control escapes,
  printable ASCII as it is, and every other code point as \<^verbatim>\<open>\uXXXX\<close>, a code point
  above U+FFFF as a surrogate pair of two such escapes.
\<close>

definition hexd :: "nat \<Rightarrow> nat" where
  "hexd d = (if d < 10 then 48 + d else 87 + d)"

definition hex4 :: "nat \<Rightarrow> str" where
  "hex4 n = [92, 117, hexd (n div 4096 mod 16), hexd (n div 256 mod 16),
             hexd (n div 16 mod 16), hexd (n mod 16)]"

definition esc_char :: "nat \<Rightarrow> str" where
  "esc_char c =
     (if c = 0x22 then [92, 0x22]
      else if c = 0x5C then [92, 92]
      else if c = 0x0A then [92, 110]
      else if c = 0x0D then [92, 114]
      else if c = 0x09 then [92, 116]
      else if c = 0x08 then [92, 98]
      else if c = 0x0C then [92, 102]
      else if 0x20 \<le> c \<and> c \<le> 0x7E then [c]
      else if c < 0x10000 then hex4 c
      else hex4 (0xD800 + (c - 0x10000) div 1024 mod 1024)
           @ hex4 (0xDC00 + (c - 0x10000) mod 1024))"

definition quote :: "str \<Rightarrow> str" where
  "quote s = 0x22 # concat (map esc_char s) @ [0x22]"

text \<open>
  \<^verbatim>\<open>json.dumps(obj)\<close> with the default separators \<^verbatim>\<open>", "\<close> and \<^verbatim>\<open>": "\<close>.
\<close>

fun dumps :: "json \<Rightarrow> str"
  and dumps_list :: "json list \<Rightarrow> str list"
  and dumps_items :: "(str \<times> json) list \<Rightarrow> str list" where
  "dumps JNull = lit ''null''"
| "dumps (JBool b) = (if b then lit ''true'' else lit ''false'')"
| "dumps (JInt i) = py_str_int i"
| "dumps (JFloat f) = float_repr f"
| "dumps (JStr s) = quote s"
| "dumps (JArr xs) = (if xs = [] then lit ''[]'' else 91 # join (lit '', '') (dumps_list xs) @ [93])"
| "dumps (JObj kvs) =
     (if kvs = [] then lit ''{}'' else 123 # join (lit '', '') (dumps_items kvs) @ [125])"
| "dumps_list [] = []"
| "dumps_list (x # xs) = dumps x # dumps_list xs"
| "dumps_items [] = []"
| "dumps_items (kv # kvs) = (quote (fst kv) @ lit '': '' @ dumps (snd kv)) # dumps_items kvs"

section \<open>Writing a request (\<^verbatim>\<open>DAPClient.send_request\<close>, lines 22 to 35)\<close>

text \<open>
  The request dict of lines 22 to 27. \<^verbatim>\<open>arguments or {}\<close> is the empty dict when
  \<^verbatim>\<open>arguments\<close> is None or an empty dict.
\<close>

definition make_request :: "int \<Rightarrow> str \<Rightarrow> (str \<times> json) list option \<Rightarrow> json" where
  "make_request n command arguments =
     JObj [(lit ''seq'', JInt n),
           (lit ''type'', JStr (lit ''request'')),
           (lit ''command'', JStr command),
           (lit ''arguments'',
              JObj (case arguments of None \<Rightarrow> [] | Some d \<Rightarrow> if d = [] then [] else d))]"

text \<open>
  Lines 30 to 35: \<open>content_length\<close> is the length of the UTF-8 encoding of the message,
  \<open>full_message\<close> the header line, a blank line and the message; \<open>frame_message\<close> is the
  bytes object handed to \<^verbatim>\<open>socket.send\<close>.
\<close>

definition content_length_of :: "str \<Rightarrow> exn + nat" where
  "content_length_of message =
     (case encode_utf8 message of Inl e \<Rightarrow> Inl e | Inr mb \<Rightarrow> Inr (length mb))"

definition full_message :: "nat \<Rightarrow> str \<Rightarrow> str" where
  "full_message content_length message =
     lit ''Content-Length: '' @ py_str_int (int content_length) @ [13, 10, 13, 10] @ message"

definition frame_message :: "str \<Rightarrow> exn + bytes" where
  "frame_message message =
     (case content_length_of message of
        Inl e \<Rightarrow> Inl e
      | Inr n \<Rightarrow> encode_utf8 (full_message n message))"

section \<open>\<^verbatim>\<open>json.loads\<close> and \<^verbatim>\<open>int\<close>\<close>

text \<open>
  \<^verbatim>\<open>int(s)\<close> on a \<^verbatim>\<open>str\<close>: surrounding whitespace is stripped, then an optional sign and
  decimal digits, single underscores allowed between digits; anything else raises
  ValueError. \<open>is_space\<close> is \<^verbatim>\<open>str.isspace\<close>. Only the ASCII digits are recognised here:
  CPython also accepts the decimal digits of other scripts, on which this function
  answers ValueError.
\<close>

definition is_space :: "nat \<Rightarrow> bool" where
  "is_space c =
     ((9 \<le> c \<and> c \<le> 13) \<or> (28 \<le> c \<and> c \<le> 32) \<or> c = 0x85 \<or> c = 0xA0 \<or> c = 0x1680
      \<or> (0x2000 \<le> c \<and> c \<le> 0x200A) \<or> c = 0x2028 \<or> c = 0x2029 \<or> c = 0x202F
      \<or> c = 0x205F \<or> c = 0x3000)"

definition is_digit :: "nat \<Rightarrow> bool" where
  "is_digit c = (48 \<le> c \<and> c \<le> 57)"

definition strip :: "str \<Rightarrow> str" where
  "strip s = rev (dropWhile is_space (rev (dropWhile is_space s)))"

fun int_digits :: "nat \<Rightarrow> str \<Rightarrow> nat option" where
  "int_digits acc [] = Some acc"
| "int_digits acc (c # cs) =
     (if is_digit c then int_digits (acc * 10 + (c - 48)) cs
      else if c = 95 then
        (case cs of
           [] \<Rightarrow> None
         | d # r \<Rightarrow> if is_digit d then int_digits (acc * 10 + (d - 48)) r else None)
      else None)"

definition py_int :: "str \<Rightarrow> exn + int" where
  "py_int s =
     (let t = strip s;
          neg = (take 1 t = [45]);
          u = (if take 1 t = [45] \<or> take 1 t = [43] then drop 1 t else t)
      in case u of
           [] \<Rightarrow> Inl ValueError
         | c # cs \<Rightarrow>
             if is_digit c then
               (case int_digits 0 u of
                  None \<Rightarrow> Inl ValueError
                | Some n \<Rightarrow> Inr (if neg then - int n else int n))
             else Inl ValueError)"

text \<open>
  \<^verbatim>\<open>json.loads\<close> on a \<^verbatim>\<open>str\<close>, as the default decoder of the \<^verbatim>\<open>json\<close> module reads it:
  whitespace is space, tab, line feed and carriage return; strings are read in strict
  mode (no raw control character), with the escapes of JSON and surrogate pairs of
  \<^verbatim>\<open>\uXXXX\<close> escapes joined; numbers are \<^verbatim>\<open>-?(0|[1-9][0-9]*)(\.[0-9]+)?([eE][-+]?[0-9]+)?\<close>; the
  constants NaN, Infinity and -Infinity are accepted; a repeated key keeps its first
  position and its last value. Every rejection is json.JSONDecodeError. The text is cut
  into tokens, and the tokens are read by a machine with an explicit stack of the open
  containers. Two limits of the interpreter are not modelled: the recursion limit on
  nesting depth and the digit limit of int conversion, beyond which CPython raises.
\<close>

datatype token = TLBrace | TRBrace | TLBrack | TRBrack | TComma | TColon | TVal json

definition hex_val :: "nat \<Rightarrow> nat option" where
  "hex_val c =
     (if 48 \<le> c \<and> c \<le> 57 then Some (c - 48)
      else if 97 \<le> c \<and> c \<le> 102 then Some (c - 87)
      else if 65 \<le> c \<and> c \<le> 70 then Some (c - 55)
      else None)"

definition hex4_val :: "str \<Rightarrow> nat option" where
  "hex4_val s =
     (case map hex_val s of
        [Some a, Some b, Some c, Some d] \<Rightarrow> Some (((a * 16 + b) * 16 + c) * 16 + d)
      | _ \<Rightarrow> None)"

definition unescape :: "nat \<Rightarrow> nat option" where
  "unescape e =
     (if e = 34 then Some 34 else if e = 92 then Some 92 else if e = 47 then Some 47
      else if e = 98 then Some 8 else if e = 102 then Some 12 else if e = 110 then Some 10
      else if e = 114 then Some 13 else if e = 116 then Some 9 else None)"

definition scanned :: "nat \<Rightarrow> nat \<Rightarrow> (str \<times> nat) option \<Rightarrow> (str \<times> nat) option" where
  "scanned x n r = map_option (\<lambda>p. (x # fst p, snd p + n)) r"

text \<open>
  The text after an opening quote: the decoded string and the number of code points
  read, closing quote included.
\<close>

fun scan_string :: "str \<Rightarrow> (str \<times> nat) option" where
  "scan_string [] = None"
| "scan_string (c # cs) =
     (if c = 34 then Some ([], 1)
      else if c = 92 then
        (case cs of
           [] \<Rightarrow> None
         | e # r \<Rightarrow>
             if e = 117 then
               (case hex4_val (take 4 r) of
                  None \<Rightarrow> None
                | Some u \<Rightarrow>
                    if 0xD800 \<le> u \<and> u \<le> 0xDBFF \<and> take 2 (drop 4 r) = [92, 117] then
                      (case hex4_val (take 4 (drop 6 r)) of
                         None \<Rightarrow> None
                       | Some u2 \<Rightarrow>
                           if 0xDC00 \<le> u2 \<and> u2 \<le> 0xDFFF then
                             scanned (0x10000 + (u - 0xD800) * 1024 + (u2 - 0xDC00)) 12
                               (scan_string (drop 10 r))
                           else scanned u 6 (scan_string (drop 4 r)))
                    else scanned u 6 (scan_string (drop 4 r)))
             else
               (case unescape e of
                  None \<Rightarrow> None
                | Some x \<Rightarrow> scanned x 2 (scan_string r)))
      else if c < 0x20 then None
      else scanned c 1 (scan_string cs))"

definition dec :: "str \<Rightarrow> nat" where
  "dec ds = foldl (\<lambda>a c. a * 10 + (c - 48)) 0 ds"

text \<open>
  A number at the head of the text: its value and the number of code points read. The
  text given is the longest run of sign, digit, point and exponent characters, which
  holds every number that starts there.
\<close>

definition is_num_char :: "nat \<Rightarrow> bool" where
  "is_num_char c = (is_digit c \<or> c = 45 \<or> c = 43 \<or> c = 46 \<or> c = 101 \<or> c = 69)"

definition scan_number :: "str \<Rightarrow> (json \<times> nat) option" where
  "scan_number xs =
     (let neg = (take 1 xs = [45]);
          r0 = (if neg then drop 1 xs else xs);
          ip = (if take 1 r0 = [48] then [48] else takeWhile is_digit r0);
          r1 = drop (length ip) r0;
          has_frac = (take 1 r1 = [46] \<and> list_all is_digit (take 1 (drop 1 r1))
                      \<and> drop 1 r1 \<noteq> []);
          fr = (if has_frac then takeWhile is_digit (drop 1 r1) else []);
          r2 = (if has_frac then drop (1 + length fr) r1 else r1);
          has_e = (take 1 r2 = [101] \<or> take 1 r2 = [69]);
          r3 = drop 1 r2;
          eneg = (take 1 r3 = [45]);
          esign = (take 1 r3 = [45] \<or> take 1 r3 = [43]);
          ed = takeWhile is_digit (if esign then drop 1 r3 else r3);
          has_exp = (has_e \<and> ed \<noteq> []);
          consumed = (if neg then 1 else 0) + length ip
                     + (if has_frac then 1 + length fr else 0)
                     + (if has_exp then 1 + (if esign then 1 else 0) + length ed else 0)
      in if ip = [] then None
         else if has_frac \<or> has_exp then
           Some (JFloat (Float neg (dec ip) (map (\<lambda>c. c - 48) fr)
                   (if has_exp then Some (if eneg then - int (dec ed) else int (dec ed))
                    else None)),
                 consumed)
         else Some (JInt (if neg then - int (dec ip) else int (dec ip)), consumed))"

definition tok :: "token \<Rightarrow> token list option \<Rightarrow> token list option" where
  "tok t r = map_option ((#) t) r"

fun tokenize :: "str \<Rightarrow> token list option" where
  "tokenize [] = Some []"
| "tokenize (c # cs) =
     (if c = 32 \<or> c = 9 \<or> c = 10 \<or> c = 13 then tokenize cs
      else if c = 123 then tok TLBrace (tokenize cs)
      else if c = 125 then tok TRBrace (tokenize cs)
      else if c = 91 then tok TLBrack (tokenize cs)
      else if c = 93 then tok TRBrack (tokenize cs)
      else if c = 44 then tok TComma (tokenize cs)
      else if c = 58 then tok TColon (tokenize cs)
      else if c = 34 then
        (case scan_string cs of
           None \<Rightarrow> None
         | Some p \<Rightarrow> tok (TVal (JStr (fst p))) (tokenize (drop (snd p) cs)))
      else if is_prefix (lit ''null'') (c # cs) then tok (TVal JNull) (tokenize (drop 3 cs))
      else if is_prefix (lit ''true'') (c # cs) then
        tok (TVal (JBool True)) (tokenize (drop 3 cs))
      else if is_prefix (lit ''false'') (c # cs) then
        tok (TVal (JBool False)) (tokenize (drop 4 cs))
      else if is_prefix (lit ''NaN'') (c # cs) then
        tok (TVal (JFloat NaN)) (tokenize (drop 2 cs))
      else if is_prefix (lit ''Infinity'') (c # cs) then
        tok (TVal (JFloat (Infinity False))) (tokenize (drop 7 cs))
      else if is_prefix (lit ''-Infinity'') (c # cs) then
        tok (TVal (JFloat (Infinity True))) (tokenize (drop 8 cs))
      else
        (case scan_number (takeWhile is_num_char (c # cs)) of
           None \<Rightarrow> None
         | Some p \<Rightarrow> tok (TVal (fst p)) (tokenize (drop (snd p - 1) cs))))"

text \<open>\<^verbatim>\<open>d[k] = v\<close> on a dict: a present key keeps its place, a new key goes last.\<close>

fun dict_set :: "(str \<times> json) list \<Rightarrow> str \<Rightarrow> json \<Rightarrow> (str \<times> json) list" where
  "dict_set [] k v = [(k, v)]"
| "dict_set (p # ps) k v = (if fst p = k then (k, v) # ps else p # dict_set ps k v)"

datatype pexpect = PValue | PValueOrEnd | PKeyOrEnd | PKey | PColon | PNext | PDone json

datatype pframe =
    FArr "json list" | FObj "(str \<times> json) list" | FKey "(str \<times> json) list" str

definition push_value :: "json \<Rightarrow> pframe list \<Rightarrow> (pexpect \<times> pframe list) option" where
  "push_value v st =
     (case st of
        [] \<Rightarrow> Some (PDone v, [])
      | FArr xs # rest \<Rightarrow> Some (PNext, FArr (xs @ [v]) # rest)
      | FKey kvs k # rest \<Rightarrow> Some (PNext, FObj (dict_set kvs k v) # rest)
      | FObj kvs # rest \<Rightarrow> None)"

definition open_value :: "pframe list \<Rightarrow> token \<Rightarrow> (pexpect \<times> pframe list) option" where
  "open_value st t =
     (case t of
        TVal v \<Rightarrow> push_value v st
      | TLBrack \<Rightarrow> Some (PValueOrEnd, FArr [] # st)
      | TLBrace \<Rightarrow> Some (PKeyOrEnd, FObj [] # st)
      | _ \<Rightarrow> None)"

definition close_array :: "pframe list \<Rightarrow> (pexpect \<times> pframe list) option" where
  "close_array st = (case st of FArr xs # rest \<Rightarrow> push_value (JArr xs) rest | _ \<Rightarrow> None)"

definition close_object :: "pframe list \<Rightarrow> (pexpect \<times> pframe list) option" where
  "close_object st = (case st of FObj kvs # rest \<Rightarrow> push_value (JObj kvs) rest | _ \<Rightarrow> None)"

definition take_key :: "pframe list \<Rightarrow> token \<Rightarrow> (pexpect \<times> pframe list) option" where
  "take_key st t =
     (case (st, t) of
        (FObj kvs # rest, TVal (JStr k)) \<Rightarrow> Some (PColon, FKey kvs k # rest)
      | _ \<Rightarrow> None)"

definition pstep :: "pexpect \<Rightarrow> pframe list \<Rightarrow> token \<Rightarrow> (pexpect \<times> pframe list) option" where
  "pstep e st t =
     (case e of
        PValue \<Rightarrow> open_value st t
      | PValueOrEnd \<Rightarrow> (if t = TRBrack then close_array st else open_value st t)
      | PKeyOrEnd \<Rightarrow> (if t = TRBrace then close_object st else take_key st t)
      | PKey \<Rightarrow> take_key st t
      | PColon \<Rightarrow> (if t = TColon then Some (PValue, st) else None)
      | PNext \<Rightarrow>
          (case st of
             FArr xs # rest \<Rightarrow>
               (if t = TComma then Some (PValue, st)
                else if t = TRBrack then close_array st else None)
           | FObj kvs # rest \<Rightarrow>
               (if t = TComma then Some (PKey, st)
                else if t = TRBrace then close_object st else None)
           | _ \<Rightarrow> None)
      | PDone v \<Rightarrow> None)"

fun parse_tokens :: "pexpect \<Rightarrow> pframe list \<Rightarrow> token list \<Rightarrow> json option" where
  "parse_tokens e st [] = (case e of PDone v \<Rightarrow> Some v | _ \<Rightarrow> None)"
| "parse_tokens e st (t # ts) =
     (case pstep e st t of
        None \<Rightarrow> None
      | Some p \<Rightarrow> parse_tokens (fst p) (snd p) ts)"

definition json_loads :: "str \<Rightarrow> exn + json" where
  "json_loads s =
     (if is_prefix [0xFEFF] s then Inl JSONDecodeError
      else case tokenize s of
             None \<Rightarrow> Inl JSONDecodeError
           | Some ts \<Rightarrow>
               (case parse_tokens PValue [] ts of
                  None \<Rightarrow> Inl JSONDecodeError
                | Some v \<Rightarrow> Inr v))"

section \<open>Sockets, processes and the client object\<close>

text \<open>
  A TCP socket as the client sees it. \<open>sk_in\<close> is what the peer will deliver, as the
  chunks in which the bytes arrive; after the last chunk the peer has closed the stream.
  \<open>sk_sent\<close> lists the arguments of the \<^verbatim>\<open>send\<close> calls made so far, \<open>sk_closed\<close> counts the
  \<^verbatim>\<open>close\<close> calls. The client is synchronous and blocks on every read, so the times at
  which the bytes arrive do not matter, only their order and their chunking.
\<close>

record sock =
  sk_connected :: bool
  sk_closed :: nat
  sk_in :: "bytes list"
  sk_sent :: "bytes list"

definition new_sock :: sock where
  "new_sock = \<lparr>sk_connected = False, sk_closed = 0, sk_in = [], sk_sent = []\<rparr>"

text \<open>
  What \<^verbatim>\<open>recv(n)\<close> takes from the pending chunks: at most \<open>n\<close> bytes of the first chunk that
  holds any, and the empty bytes object only when the peer has closed the stream.
\<close>

fun take_chunk :: "nat \<Rightarrow> bytes list \<Rightarrow> bytes \<times> bytes list" where
  "take_chunk n [] = ([], [])"
| "take_chunk n (c # cs) =
     (if c = [] then take_chunk n cs
      else (take n c, if drop n c = [] then cs else drop n c # cs))"

text \<open>
  \<^verbatim>\<open>socket.recv\<close> and \<^verbatim>\<open>socket.send\<close> raise OSError on a socket that is closed or was never
  connected. \<^verbatim>\<open>send\<close> is taken to accept the whole buffer; the source ignores the count it
  returns.
\<close>

definition sock_recv :: "sock \<Rightarrow> nat \<Rightarrow> exn + bytes \<times> sock" where
  "sock_recv s n =
     (if \<not> sk_connected s \<or> 0 < sk_closed s then Inl OSError
      else Inr (fst (take_chunk n (sk_in s)), s\<lparr>sk_in := snd (take_chunk n (sk_in s))\<rparr>))"

definition sock_send :: "sock \<Rightarrow> bytes \<Rightarrow> exn + sock" where
  "sock_send s data =
     (if \<not> sk_connected s \<or> 0 < sk_closed s then Inl OSError
      else Inr (s\<lparr>sk_sent := sk_sent s @ [data]\<rparr>))"

definition sock_close :: "sock \<Rightarrow> sock" where
  "sock_close s = s\<lparr>sk_closed := sk_closed s + 1\<rparr>"

text \<open>
  The debuggee process handle of \<^verbatim>\<open>subprocess.Popen\<close>: how often \<^verbatim>\<open>terminate\<close> and \<^verbatim>\<open>wait\<close>
  were called on it.
\<close>

record proc =
  pr_terminated :: nat
  pr_waited :: nat

text \<open>
  Everything outside the client object: the sockets and processes created so far (a
  store indexed by handle, \<open>nsocks\<close> and \<open>nprocs\<close> the next free handles), the peers a
  TCP connect can reach (\<open>None\<close>: the connection is refused; otherwise the chunks the
  peer will deliver), the working directory, and whether a subprocess can be started.
\<close>

record world =
  socks :: "nat \<Rightarrow> sock"
  nsocks :: nat
  procs :: "nat \<Rightarrow> proc"
  nprocs :: nat
  peers :: "str \<Rightarrow> int \<Rightarrow> bytes list option"
  cwd :: str
  can_spawn :: bool

record DAPClient =
  debug_port :: int
  socket :: "nat option"
  seq :: int

text \<open>\<^verbatim>\<open>DAPClient.__init__\<close>.\<close>

definition DAPClient_init :: DAPClient where
  "DAPClient_init = \<lparr>debug_port = 5678, socket = None, seq = 1\<rparr>"

definition set_sock :: "world \<Rightarrow> nat \<Rightarrow> sock \<Rightarrow> world" where
  "set_sock w h s = w\<lparr>socks := (socks w)(h := s)\<rparr>"

text \<open>
  Lines 22 to 35 of \<^verbatim>\<open>send_request\<close>: build the request, advance \<open>seq\<close>, serialise, frame,
  send. \<^verbatim>\<open>self.socket.send\<close> on a client that never connected raises AttributeError
  (\<^verbatim>\<open>self.socket\<close> is None). The \<^verbatim>\<open>print\<close> calls of the source have no effect on the state
  and are left out everywhere.
\<close>

definition send_request_write ::
  "DAPClient \<Rightarrow> world \<Rightarrow> str \<Rightarrow> (str \<times> json) list option \<Rightarrow> (exn + unit) \<times> DAPClient \<times> world"
where
  "send_request_write cl w command arguments =
     (let request = make_request (seq cl) command arguments;
          cl' = cl\<lparr>seq := seq cl + 1\<rparr>;
          message = dumps request
      in case content_length_of message of
           Inl e \<Rightarrow> (Inl e, cl', w)
         | Inr content_length \<Rightarrow>
             (case socket cl' of
                None \<Rightarrow> (Inl AttributeError, cl', w)
              | Some h \<Rightarrow>
                  (case encode_utf8 (full_message content_length message) of
                     Inl e \<Rightarrow> (Inl e, cl', w)
                   | Inr data \<Rightarrow>
                       (case sock_send (socks w h) data of
                          Inl e \<Rightarrow> (Inl e, cl', w)
                        | Inr s' \<Rightarrow> (Inr (), cl', set_sock w h s')))))"

section \<open>Reading a message (\<^verbatim>\<open>DAPClient.read_response\<close>)\<close>

text \<open>
  Lines 55 to 57: one byte at a time until the headers hold the blank line. The loop
  has no exit when the peer closes the stream: \<^verbatim>\<open>recv\<close> then returns the empty bytes
  object for ever, and the loop does not return (the value \<open>None\<close>).
\<close>

partial_function (option) read_headers :: "sock \<Rightarrow> bytes \<Rightarrow> ((exn + bytes) \<times> sock) option" where
  "read_headers s headers =
     (if contains [13, 10, 13, 10] headers then Some (Inr headers, s)
      else case sock_recv s 1 of
             Inl e \<Rightarrow> Some (Inl e, s)
           | Inr r \<Rightarrow> read_headers (snd r) (headers @ fst r))"

text \<open>
  Lines 60 and 61: \<^verbatim>\<open>int(header_str.split("Content-Length: ")[1].split("\r\n")[0])\<close>. Index 1
  of a split without an occurrence of the separator raises IndexError.
\<close>

definition parse_content_length :: "bytes \<Rightarrow> exn + int" where
  "parse_content_length headers =
     (case decode_utf8 headers of
        Inl e \<Rightarrow> Inl e
      | Inr header_str \<Rightarrow>
          (case split header_str (lit ''Content-Length: '') of
             p0 # p1 # ps \<Rightarrow>
               (case split p1 [13, 10] of
                  [] \<Rightarrow> Inl IndexError
                | q # qs \<Rightarrow> py_int q)
           | _ \<Rightarrow> Inl IndexError))"

text \<open>
  Lines 64 to 66: \<^verbatim>\<open>recv\<close> is asked for the bytes still missing until the body has
  \<open>content_length\<close> bytes. Like the header loop it does not return when the peer closes
  the stream early.
\<close>

partial_function (option) read_body ::
  "sock \<Rightarrow> int \<Rightarrow> bytes \<Rightarrow> ((exn + bytes) \<times> sock) option"
where
  "read_body s content_length body =
     (if int (length body) < content_length then
        (case sock_recv s (nat (content_length - int (length body))) of
           Inl e \<Rightarrow> Some (Inl e, s)
         | Inr r \<Rightarrow> read_body (snd r) content_length (body @ fst r))
      else Some (Inr body, s))"

text \<open>Line 68: \<^verbatim>\<open>json.loads(body.decode("utf-8"))\<close>.\<close>

definition decode_body :: "bytes \<Rightarrow> exn + json" where
  "decode_body body =
     (case decode_utf8 body of Inl e \<Rightarrow> Inl e | Inr text \<Rightarrow> json_loads text)"

definition sock_read_response :: "sock \<Rightarrow> ((exn + json) \<times> sock) option" where
  "sock_read_response s =
     (case read_headers s [] of
        None \<Rightarrow> None
      | Some (Inl e, s1) \<Rightarrow> Some (Inl e, s1)
      | Some (Inr headers, s1) \<Rightarrow>
          (case parse_content_length headers of
             Inl e \<Rightarrow> Some (Inl e, s1)
           | Inr content_length \<Rightarrow>
               (case read_body s1 content_length [] of
                  None \<Rightarrow> None
                | Some (Inl e, s2) \<Rightarrow> Some (Inl e, s2)
                | Some (Inr body, s2) \<Rightarrow> Some (decode_body body, s2))))"

text \<open>
  \<^verbatim>\<open>read_response\<close> on the client: \<^verbatim>\<open>self.socket.recv\<close> raises AttributeError when the
  client never connected.
\<close>

definition read_response :: "DAPClient \<Rightarrow> world \<Rightarrow> ((exn + json) \<times> world) option" where
  "read_response cl w =
     (case socket cl of
        None \<Rightarrow> Some (Inl AttributeError, w)
      | Some h \<Rightarrow>
          (case sock_read_response (socks w h) of
             None \<Rightarrow> None
           | Some r \<Rightarrow> Some (fst r, set_sock w h (snd r))))"

section \<open>Requests and responses (\<^verbatim>\<open>DAPClient.send_request\<close>)\<close>

text \<open>
  \<^verbatim>\<open>response.get(key)\<close>: the value, or None for an absent key. A message that is not a
  dict has no \<^verbatim>\<open>get\<close> and raises AttributeError.
\<close>

definition py_get :: "json \<Rightarrow> str \<Rightarrow> exn + json" where
  "py_get v key =
     (case v of
        JObj kvs \<Rightarrow> Inr (case map_of kvs key of None \<Rightarrow> JNull | Some x \<Rightarrow> x)
      | _ \<Rightarrow> Inl AttributeError)"

text \<open>Lines 46 to 49: the test that ends the wait for a response.\<close>

definition is_response_to :: "str \<Rightarrow> json \<Rightarrow> exn + bool" where
  "is_response_to command response =
     (case py_get response (lit ''type'') of
        Inl e \<Rightarrow> Inl e
      | Inr t \<Rightarrow>
          (case py_get response (lit ''command'') of
             Inl e \<Rightarrow> Inl e
           | Inr c \<Rightarrow> Inr (t = JStr (lit ''response'') \<and> c = JStr command)))"

text \<open>Lines 41 to 50: read until the response to \<open>command\<close>; everything else is skipped.\<close>

partial_function (option) send_request_wait ::
  "DAPClient \<Rightarrow> world \<Rightarrow> str \<Rightarrow> ((exn + json) \<times> world) option"
where
  "send_request_wait cl w command =
     (case read_response cl w of
        None \<Rightarrow> None
      | Some r \<Rightarrow>
          (case fst r of
             Inl e \<Rightarrow> Some (Inl e, snd r)
           | Inr response \<Rightarrow>
               (case is_response_to command response of
                  Inl e \<Rightarrow> Some (Inl e, snd r)
                | Inr b \<Rightarrow>
                    if b then Some (Inr response, snd r)
                    else send_request_wait cl (snd r) command)))"

text \<open>
  \<^verbatim>\<open>send_request\<close>: the result is the exception raised or the value returned (None without
  a wait, the response otherwise), with the client object and the world as the call
  leaves them; \<open>None\<close> when the call does not return.
\<close>

definition send_request ::
  "DAPClient \<Rightarrow> world \<Rightarrow> str \<Rightarrow> (str \<times> json) list option \<Rightarrow> bool
     \<Rightarrow> ((exn + json option) \<times> DAPClient \<times> world) option"
where
  "send_request cl w command arguments wait_for_response =
     (case send_request_write cl w command arguments of
        (Inl e, cl', w') \<Rightarrow> Some (Inl e, cl', w')
      | (Inr u, cl', w') \<Rightarrow>
          if \<not> wait_for_response then Some (Inr None, cl', w')
          else (case send_request_wait cl' w' command of
                  None \<Rightarrow> None
                | Some r \<Rightarrow> Some (map_sum id Some (fst r), cl', snd r)))"

section \<open>The session handshake\<close>

text \<open>
  \<^verbatim>\<open>DAPClient.connect\<close>: the socket object is created and stored in \<^verbatim>\<open>self.socket\<close> before
  the TCP connect, so a refused connection leaves an unconnected socket in the client.
\<close>

definition connect ::
  "DAPClient \<Rightarrow> world \<Rightarrow> str \<Rightarrow> int \<Rightarrow> (exn + unit) \<times> DAPClient \<times> world"
where
  "connect cl w host port =
     (let h = nsocks w;
          w1 = w\<lparr>socks := (socks w)(h := new_sock), nsocks := h + 1\<rparr>;
          cl' = cl\<lparr>socket := Some h\<rparr>
      in case peers w host port of
           None \<Rightarrow> (Inl ConnectionRefusedError, cl', w1)
         | Some chunks \<Rightarrow>
             (Inr (), cl', set_sock w1 h (new_sock\<lparr>sk_connected := True, sk_in := chunks\<rparr>)))"

text \<open>
  The test of the two inline event loops (lines 111 to 114 and 193 to 196):
  \<^verbatim>\<open>response.get("type") == "event" and response.get("event") == name\<close>.
\<close>

definition is_event :: "str \<Rightarrow> json \<Rightarrow> exn + bool" where
  "is_event name response =
     (case py_get response (lit ''type'') of
        Inl e \<Rightarrow> Inl e
      | Inr t \<Rightarrow>
          (case py_get response (lit ''event'') of
             Inl e \<Rightarrow> Inl e
           | Inr ev \<Rightarrow> Inr (t = JStr (lit ''event'') \<and> ev = JStr name)))"

text \<open>
  The inline loops of \<^verbatim>\<open>initialize_session\<close> (lines 108 to 116, event \<^verbatim>\<open>initialized\<close>) and of
  \<^verbatim>\<open>start_debug_session\<close> (lines 191 to 198, event \<^verbatim>\<open>stopped\<close>), which differ in the event
  name only: read until that event. The value is \<^verbatim>\<open>response\<close> as the loop leaves it at
  \<^verbatim>\<open>break\<close>, the whole message.
\<close>

partial_function (option) wait_event_loop ::
  "DAPClient \<Rightarrow> world \<Rightarrow> str \<Rightarrow> ((exn + json) \<times> world) option"
where
  "wait_event_loop cl w name =
     (case read_response cl w of
        None \<Rightarrow> None
      | Some r \<Rightarrow>
          (case fst r of
             Inl e \<Rightarrow> Some (Inl e, snd r)
           | Inr response \<Rightarrow>
               (case is_event name response of
                  Inl e \<Rightarrow> Some (Inl e, snd r)
                | Inr b \<Rightarrow>
                    if b then Some (Inr response, snd r)
                    else wait_event_loop cl (snd r) name)))"

definition initialize_arguments :: "(str \<times> json) list" where
  "initialize_arguments =
     [(lit ''clientID'', JStr (lit ''dap-demo'')),
      (lit ''clientName'', JStr (lit ''DAP Demo Client'')),
      (lit ''adapterID'', JStr (lit ''python'')),
      (lit ''pathFormat'', JStr (lit ''path'')),
      (lit ''linesStartAt1'', JBool True),
      (lit ''columnsStartAt1'', JBool True),
      (lit ''supportsVariableType'', JBool True),
      (lit ''supportsVariablePaging'', JBool True),
      (lit ''supportsRunInTerminalRequest'', JBool True)]"

definition attach_arguments :: "DAPClient \<Rightarrow> (str \<times> json) list" where
  "attach_arguments cl =
     [(lit ''connect'',
         JObj [(lit ''host'', JStr (lit ''localhost'')), (lit ''port'', JInt (debug_port cl))]),
      (lit ''pathMappings'', JArr []),
      (lit ''justMyCode'', JBool False)]"

text \<open>\<^verbatim>\<open>DAPClient.initialize_session\<close>; it returns None.\<close>

definition initialize_session ::
  "DAPClient \<Rightarrow> world \<Rightarrow> ((exn + unit) \<times> DAPClient \<times> world) option"
where
  "initialize_session cl w =
     (case send_request cl w (lit ''initialize'') (Some initialize_arguments) True of
        None \<Rightarrow> None
      | Some (Inl e, cl1, w1) \<Rightarrow> Some (Inl e, cl1, w1)
      | Some (Inr r1, cl1, w1) \<Rightarrow>
          (case send_request cl1 w1 (lit ''attach'') (Some (attach_arguments cl1)) False of
             None \<Rightarrow> None
           | Some (Inl e, cl2, w2) \<Rightarrow> Some (Inl e, cl2, w2)
           | Some (Inr r2, cl2, w2) \<Rightarrow>
               (case wait_event_loop cl2 w2 (lit ''initialized'') of
                  None \<Rightarrow> None
                | Some (Inl e, w3) \<Rightarrow> Some (Inl e, cl2, w3)
                | Some (Inr ev, w3) \<Rightarrow> Some (Inr (), cl2, w3))))"

text \<open>
  \<^verbatim>\<open>os.path.abspath\<close> of \<^verbatim>\<open>posixpath\<close>: a relative path is joined to the working directory,
  and the result is normalised (\<^verbatim>\<open>normpath\<close>: empty and \<^verbatim>\<open>.\<close> components dropped, \<^verbatim>\<open>..\<close>
  resolved, exactly two leading slashes kept).
\<close>

fun norm_comps :: "bool \<Rightarrow> str list \<Rightarrow> str list \<Rightarrow> str list" where
  "norm_comps initial [] new_comps = new_comps"
| "norm_comps initial (part # comps) new_comps =
     (if part = [] \<or> part = lit ''.'' then norm_comps initial comps new_comps
      else if part \<noteq> lit ''..'' \<or> (\<not> initial \<and> new_comps = [])
              \<or> (new_comps \<noteq> [] \<and> last new_comps = lit ''..'')
        then norm_comps initial comps (new_comps @ [part])
      else if new_comps \<noteq> [] then norm_comps initial comps (butlast new_comps)
      else norm_comps initial comps new_comps)"

definition normpath :: "str \<Rightarrow> str" where
  "normpath path =
     (if path = [] then lit ''.''
      else
        (let initial_slashes =
               (if is_prefix (lit ''/'') path then
                  (if is_prefix (lit ''//'') path \<and> \<not> is_prefix (lit ''///'') path then 2
                   else 1)
                else (0::nat));
             comps = norm_comps (initial_slashes \<noteq> 0) (split path (lit ''/'')) [];
             p = replicate initial_slashes 47 @ join (lit ''/'') comps
         in if p = [] then lit ''.'' else p))"

definition path_join :: "str \<Rightarrow> str \<Rightarrow> str" where
  "path_join a p =
     (if is_prefix (lit ''/'') p then p
      else if a = [] \<or> last a = 47 then a @ p
      else a @ lit ''/'' @ p)"

definition abspath :: "str \<Rightarrow> str \<Rightarrow> str" where
  "abspath wd path =
     normpath (if is_prefix (lit ''/'') path then path else path_join wd path)"

text \<open>\<^verbatim>\<open>DAPClient.set_breakpoints\<close> and the four one-line requests after it.\<close>

definition breakpoints_arguments :: "str \<Rightarrow> int list \<Rightarrow> (str \<times> json) list" where
  "breakpoints_arguments abs_path lines =
     [(lit ''source'', JObj [(lit ''path'', JStr abs_path)]),
      (lit ''breakpoints'', JArr (map (\<lambda>line. JObj [(lit ''line'', JInt line)]) lines))]"

definition set_breakpoints ::
  "DAPClient \<Rightarrow> world \<Rightarrow> str \<Rightarrow> int list
     \<Rightarrow> ((exn + json option) \<times> DAPClient \<times> world) option"
where
  "set_breakpoints cl w file_path lines =
     send_request cl w (lit ''setBreakpoints'')
       (Some (breakpoints_arguments (abspath (cwd w) file_path) lines)) True"

definition configuration_done ::
  "DAPClient \<Rightarrow> world \<Rightarrow> ((exn + json option) \<times> DAPClient \<times> world) option"
where
  "configuration_done cl w = send_request cl w (lit ''configurationDone'') None True"

definition get_stack_trace ::
  "DAPClient \<Rightarrow> world \<Rightarrow> json \<Rightarrow> ((exn + json option) \<times> DAPClient \<times> world) option"
where
  "get_stack_trace cl w thread_id =
     send_request cl w (lit ''stackTrace'') (Some [(lit ''threadId'', thread_id)]) True"

definition get_scopes ::
  "DAPClient \<Rightarrow> world \<Rightarrow> json \<Rightarrow> ((exn + json option) \<times> DAPClient \<times> world) option"
where
  "get_scopes cl w frame_id =
     send_request cl w (lit ''scopes'') (Some [(lit ''frameId'', frame_id)]) True"

definition get_variables ::
  "DAPClient \<Rightarrow> world \<Rightarrow> json \<Rightarrow> ((exn + json option) \<times> DAPClient \<times> world) option"
where
  "get_variables cl w variables_reference =
     send_request cl w (lit ''variables'')
       (Some [(lit ''variablesReference'', variables_reference)]) True"

section \<open>The driver (\<^verbatim>\<open>DAPDebugger.start_debug_session\<close>)\<close>

text \<open>
  Subscription and iteration on the values of a response. \<^verbatim>\<open>x["key"]\<close> raises KeyError on
  a dict without the key and TypeError on anything that is not a dict; \<^verbatim>\<open>x[0]\<close> is the
  first element of a list or the first character of a str, IndexError when there is
  none, KeyError on a dict (its keys are strs) and TypeError otherwise; \<^verbatim>\<open>for v in x\<close>
  runs through the elements of a list, the keys of a dict, the characters of a str, and
  raises TypeError otherwise. The return value of \<^verbatim>\<open>send_request\<close> is subscripted as it
  is, so None raises TypeError.
\<close>

definition py_item :: "json \<Rightarrow> str \<Rightarrow> exn + json" where
  "py_item x key =
     (case x of
        JObj kvs \<Rightarrow> (case map_of kvs key of None \<Rightarrow> Inl KeyError | Some v \<Rightarrow> Inr v)
      | _ \<Rightarrow> Inl TypeError)"

definition py_item0 :: "json \<Rightarrow> exn + json" where
  "py_item0 x =
     (case x of
        JArr xs \<Rightarrow> (case xs of [] \<Rightarrow> Inl IndexError | v # vs \<Rightarrow> Inr v)
      | JStr s \<Rightarrow> (case s of [] \<Rightarrow> Inl IndexError | c # cs \<Rightarrow> Inr (JStr [c]))
      | JObj kvs \<Rightarrow> Inl KeyError
      | _ \<Rightarrow> Inl TypeError)"

definition py_iter :: "json \<Rightarrow> exn + json list" where
  "py_iter x =
     (case x of
        JArr xs \<Rightarrow> Inr xs
      | JObj kvs \<Rightarrow> Inr (map (\<lambda>kv. JStr (fst kv)) kvs)
      | JStr s \<Rightarrow> Inr (map (\<lambda>c. JStr [c]) s)
      | _ \<Rightarrow> Inl TypeError)"

definition returned_item :: "json option \<Rightarrow> str \<Rightarrow> exn + json" where
  "returned_item r key = (case r of None \<Rightarrow> Inl TypeError | Some x \<Rightarrow> py_item x key)"

definition then_item :: "exn + json \<Rightarrow> str \<Rightarrow> exn + json" where
  "then_item r key = (case r of Inl e \<Rightarrow> Inl e | Inr x \<Rightarrow> py_item x key)"

text \<open>
  The inner loop (lines 211 to 257). Each variable is printed with \<^verbatim>\<open>var['name']\<close> and
  \<^verbatim>\<open>var['value']\<close>; the comparisons against the list of interesting names only print.
\<close>

fun inspect_variables :: "json list \<Rightarrow> exn + unit" where
  "inspect_variables [] = Inr ()"
| "inspect_variables (var # vars) =
     (case py_item var (lit ''name'') of
        Inl e \<Rightarrow> Inl e
      | Inr n \<Rightarrow>
          (case py_item var (lit ''value'') of
             Inl e \<Rightarrow> Inl e
           | Inr v \<Rightarrow> inspect_variables vars))"

text \<open>The outer loop (lines 207 to 257), one \<^verbatim>\<open>variables\<close> request per scope.\<close>

fun inspect_scopes ::
  "DAPClient \<Rightarrow> world \<Rightarrow> json list \<Rightarrow> ((exn + unit) \<times> DAPClient \<times> world) option"
where
  "inspect_scopes cl w [] = Some (Inr (), cl, w)"
| "inspect_scopes cl w (scope # scopes) =
     (case py_item scope (lit ''name'') of
        Inl e \<Rightarrow> Some (Inl e, cl, w)
      | Inr n \<Rightarrow>
          (case py_item scope (lit ''variablesReference'') of
             Inl e \<Rightarrow> Some (Inl e, cl, w)
           | Inr ref \<Rightarrow>
               (case get_variables cl w ref of
                  None \<Rightarrow> None
                | Some (Inl e, cl1, w1) \<Rightarrow> Some (Inl e, cl1, w1)
                | Some (Inr vars_response, cl1, w1) \<Rightarrow>
                    (case then_item (returned_item vars_response (lit ''body''))
                            (lit ''variables'') of
                       Inl e \<Rightarrow> Some (Inl e, cl1, w1)
                     | Inr vs \<Rightarrow>
                         (case py_iter vs of
                            Inl e \<Rightarrow> Some (Inl e, cl1, w1)
                          | Inr vars \<Rightarrow>
                              (case inspect_variables vars of
                                 Inl e \<Rightarrow> Some (Inl e, cl1, w1)
                               | Inr u \<Rightarrow> inspect_scopes cl1 w1 scopes))))))"

record DAPDebugger =
  dbg_debug_port :: int
  client :: DAPClient

text \<open>\<^verbatim>\<open>DAPDebugger.__init__\<close>.\<close>

definition DAPDebugger_init :: DAPDebugger where
  "DAPDebugger_init = \<lparr>dbg_debug_port = 5678, client = DAPClient_init\<rparr>"

text \<open>Lines 200 to 257: the inspection after the breakpoint was hit.\<close>

definition inspect_stopped ::
  "DAPClient \<Rightarrow> world \<Rightarrow> json \<Rightarrow> ((exn + unit) \<times> DAPClient \<times> world) option"
where
  "inspect_stopped cl w response =
     (case then_item (py_item response (lit ''body'')) (lit ''threadId'') of
        Inl e \<Rightarrow> Some (Inl e, cl, w)
      | Inr thread_id \<Rightarrow>
          (case get_stack_trace cl w thread_id of
             None \<Rightarrow> None
           | Some (Inl e, cl1, w1) \<Rightarrow> Some (Inl e, cl1, w1)
           | Some (Inr stack_response, cl1, w1) \<Rightarrow>
               (case then_item (returned_item stack_response (lit ''body''))
                       (lit ''stackFrames'') of
                  Inl e \<Rightarrow> Some (Inl e, cl1, w1)
                | Inr frames \<Rightarrow>
                    (case py_item0 frames of
                       Inl e \<Rightarrow> Some (Inl e, cl1, w1)
                     | Inr frame \<Rightarrow>
                         (case py_item frame (lit ''id'') of
                            Inl e \<Rightarrow> Some (Inl e, cl1, w1)
                          | Inr frame_id \<Rightarrow>
                              (case get_scopes cl1 w1 frame_id of
                                 None \<Rightarrow> None
                               | Some (Inl e, cl2, w2) \<Rightarrow> Some (Inl e, cl2, w2)
                               | Some (Inr scopes_response, cl2, w2) \<Rightarrow>
                                   (case then_item
                                           (returned_item scopes_response (lit ''body''))
                                           (lit ''scopes'') of
                                      Inl e \<Rightarrow> Some (Inl e, cl2, w2)
                                    | Inr ss \<Rightarrow>
                                        (case py_iter ss of
                                           Inl e \<Rightarrow> Some (Inl e, cl2, w2)
                                         | Inr scopes \<Rightarrow> inspect_scopes cl2 w2 scopes))))))))"

text \<open>Lines 174 to 257: the body of the \<^verbatim>\<open>try\<close> statement.\<close>

definition session_body ::
  "DAPDebugger \<Rightarrow> world \<Rightarrow> ((exn + unit) \<times> DAPClient \<times> world) option"
where
  "session_body dbg w =
     (case connect (client dbg) w (lit ''localhost'') (dbg_debug_port dbg) of
        (Inl e, cl0, w0) \<Rightarrow> Some (Inl e, cl0, w0)
      | (Inr u, cl0, w0) \<Rightarrow>
          (case initialize_session cl0 w0 of
             None \<Rightarrow> None
           | Some (Inl e, cl1, w1) \<Rightarrow> Some (Inl e, cl1, w1)
           | Some (Inr u1, cl1, w1) \<Rightarrow>
               (case set_breakpoints cl1 w1 (lit ''demo/main.py'') [99] of
                  None \<Rightarrow> None
                | Some (Inl e, cl2, w2) \<Rightarrow> Some (Inl e, cl2, w2)
                | Some (Inr r2, cl2, w2) \<Rightarrow>
                    (case configuration_done cl2 w2 of
                       None \<Rightarrow> None
                     | Some (Inl e, cl3, w3) \<Rightarrow> Some (Inl e, cl3, w3)
                     | Some (Inr r3, cl3, w3) \<Rightarrow>
                         (case wait_event_loop cl3 w3 (lit ''stopped'') of
                            None \<Rightarrow> None
                          | Some (Inl e, w4) \<Rightarrow> Some (Inl e, cl3, w4)
                          | Some (Inr response, w4) \<Rightarrow> inspect_stopped cl3 w4 response)))))"

text \<open>
  The \<^verbatim>\<open>finally\<close> block (lines 261 to 265): close the socket if the client has one,
  terminate the process, wait for it. \<open>p\<close> is the handle of \<^verbatim>\<open>target_process\<close>.
\<close>

definition terminate :: "world \<Rightarrow> nat \<Rightarrow> world" where
  "terminate w p = w\<lparr>procs := (procs w)(p := (procs w p)\<lparr>pr_terminated := pr_terminated (procs w p) + 1\<rparr>)\<rparr>"

definition wait :: "world \<Rightarrow> nat \<Rightarrow> world" where
  "wait w p = w\<lparr>procs := (procs w)(p := (procs w p)\<lparr>pr_waited := pr_waited (procs w p) + 1\<rparr>)\<rparr>"

definition teardown :: "DAPClient \<Rightarrow> world \<Rightarrow> nat \<Rightarrow> world" where
  "teardown cl w p =
     wait (terminate
       (case socket cl of None \<Rightarrow> w | Some h \<Rightarrow> set_sock w h (sock_close (socks w h))) p) p"

text \<open>
  \<^verbatim>\<open>start_debug_session\<close>. \<^verbatim>\<open>Popen\<close> is outside the \<^verbatim>\<open>try\<close> statement: when the process cannot
  be started, its OSError leaves the method at once. Every exception of the body is an
  \<^verbatim>\<open>Exception\<close>, is caught by the \<^verbatim>\<open>except\<close> clause and only printed, so the method returns
  None after the \<^verbatim>\<open>finally\<close> block. When the body does not return, neither does the
  method.
\<close>

definition start_debug_session ::
  "DAPDebugger \<Rightarrow> world \<Rightarrow> ((exn + unit) \<times> DAPDebugger \<times> world) option"
where
  "start_debug_session dbg w =
     (if \<not> can_spawn w then Some (Inl OSError, dbg, w)
      else
        (let target_process = nprocs w;
             w0 = w\<lparr>procs := (procs w)(target_process := \<lparr>pr_terminated = 0, pr_waited = 0\<rparr>),
                    nprocs := target_process + 1\<rparr>
         in case session_body dbg w0 of
              None \<Rightarrow> None
            | Some (r, cl1, w1) \<Rightarrow>
                Some (Inr (), dbg\<lparr>client := cl1\<rparr>, teardown cl1 w1 target_process)))"

section \<open>Notions used in the statements\<close>

text \<open>
  The bytes object that \<^verbatim>\<open>send_request\<close> hands to \<^verbatim>\<open>socket.send\<close> for the request with
  sequence number \<open>n\<close>. The encoding cannot fail, since \<^verbatim>\<open>json.dumps\<close> writes ASCII only
  (\<open>dumps_ascii\<close> below).
\<close>

definition request_bytes :: "int \<Rightarrow> str \<Rightarrow> (str \<times> json) list option \<Rightarrow> bytes" where
  "request_bytes n command arguments =
     (case frame_message (dumps (make_request n command arguments)) of
        Inl e \<Rightarrow> []
      | Inr data \<Rightarrow> data)"

text \<open>
  \<open>same_but_input w w'\<close>: the world \<open>w'\<close> differs from \<open>w\<close> at most in the bytes still
  pending on the sockets.
\<close>

definition same_but_input :: "world \<Rightarrow> world \<Rightarrow> bool" where
  "same_but_input w w' \<longleftrightarrow>
     nsocks w' = nsocks w \<and> procs w' = procs w \<and> nprocs w' = nprocs w
     \<and> peers w' = peers w \<and> cwd w' = cwd w \<and> can_spawn w' = can_spawn w
     \<and> (\<forall>h. sk_connected (socks w' h) = sk_connected (socks w h)
             \<and> sk_closed (socks w' h) = sk_closed (socks w h)
             \<and> sk_sent (socks w' h) = sk_sent (socks w h))"

text \<open>
  \<open>kept cl w cl' w'\<close>: a step from client \<open>cl\<close> and world \<open>w\<close> to \<open>cl'\<close> and \<open>w'\<close> left the
  socket handle of the client, the processes, the number of sockets and the close count
  of every socket as they were.
\<close>

definition kept :: "DAPClient \<Rightarrow> world \<Rightarrow> DAPClient \<Rightarrow> world \<Rightarrow> bool" where
  "kept cl w cl' w' \<longleftrightarrow>
     socket cl' = socket cl \<and> procs w' = procs w \<and> nprocs w' = nprocs w
     \<and> nsocks w' = nsocks w \<and> (\<forall>h. sk_closed (socks w' h) = sk_closed (socks w h))"


text \<open>
  Framing as the specification words it, on the undivided byte sequence still to
  arrive: accumulate bytes until the header terminator is observed, parse
  Content-Length from the header, take exactly that many further bytes, decode them.
  \<open>headers_flat inp hs\<close> is the header block and the bytes after it, \<open>read_flat inp\<close> the
  message (or the exception) and the bytes after it; \<open>None\<close> when the bytes run out
  first.
\<close>

fun headers_flat :: "bytes \<Rightarrow> bytes \<Rightarrow> (bytes \<times> bytes) option" where
  "headers_flat [] hs = (if contains [13, 10, 13, 10] hs then Some (hs, []) else None)"
| "headers_flat (b # bs) hs =
     (if contains [13, 10, 13, 10] hs then Some (hs, b # bs) else headers_flat bs (hs @ [b]))"

definition read_flat :: "bytes \<Rightarrow> ((exn + json) \<times> bytes) option" where
  "read_flat inp =
     (case headers_flat inp [] of
        None \<Rightarrow> None
      | Some p \<Rightarrow>
          (case parse_content_length (fst p) of
             Inl e \<Rightarrow> Some (Inl e, snd p)
           | Inr n \<Rightarrow>
               if length (snd p) < nat n then None
               else Some (decode_body (take (nat n) (snd p)), drop (nat n) (snd p))))"


text \<open>
  Two messages for the examples, and the frames that carry them: a \<^verbatim>\<open>stopped\<close> event with
  a body, and the response to a command \<^verbatim>\<open>x\<close>.
\<close>

definition event_stopped :: json where
  \<open>event_stopped =
     JObj [(lit ''type'', JStr (lit ''event'')), (lit ''event'', JStr (lit ''stopped'')),
           (lit ''body'', JObj [(lit ''threadId'', JInt 7)])]\<close>


definition frame_stopped :: bytes where
  \<open>frame_stopped = blit ''Content-Length: 56'' @ [13, 10, 13, 10]
     @ blit ''{"type":"event","event":"stopped","body":{"threadId":7}}''\<close>


text \<open>The response to \<^verbatim>\<open>setBreakpoints\<close> and its frame.\<close>

definition response_set_breakpoints :: json where
  \<open>response_set_breakpoints =
     JObj [(lit ''type'', JStr (lit ''response'')), (lit ''command'', JStr (lit ''setBreakpoints''))]\<close>

definition frame_set_breakpoints :: bytes where
  \<open>frame_set_breakpoints = blit ''Content-Length: 46'' @ [13, 10, 13, 10]
     @ blit ''{"type":"response","command":"setBreakpoints"}''\<close>

text \<open>
  \<open>carries hdr body m\<close>: the header \<open>hdr\<close> has no carriage return and announces the length
  of \<open>body\<close>, and \<open>body\<close> decodes to the message \<open>m\<close>; so \<open>hdr\<close>, the blank line and \<open>body\<close>
  are a frame of \<open>m\<close>.
\<close>

definition carries :: "bytes \<Rightarrow> bytes \<Rightarrow> json \<Rightarrow> bool" where
  "carries hdr body m \<longleftrightarrow>
     13 \<notin> set hdr
     \<and> parse_content_length (hdr @ [13, 10, 13, 10]) = Inr (int (length body))
     \<and> decode_body body = Inr m"

text \<open>
  The messages of a whole session, as the scenarios of the specification give them: the
  response to \<^verbatim>\<open>initialize\<close>, the \<^verbatim>\<open>initialized\<close> event, the responses to
  \<^verbatim>\<open>configurationDone\<close>, \<^verbatim>\<open>stackTrace\<close> (one frame, id 100), \<^verbatim>\<open>scopes\<close> (one scope, reference 55)
  and \<^verbatim>\<open>variables\<close> (one variable), each with its frame.
\<close>

definition response_initialize :: json where
  \<open>response_initialize =
     JObj [(lit ''seq'', JInt 1), (lit ''type'', JStr (lit ''response'')),
           (lit ''request_seq'', JInt 1), (lit ''command'', JStr (lit ''initialize'')),
           (lit ''success'', JBool True), (lit ''body'', JObj [])]\<close>

definition frame_initialize :: bytes where
  \<open>frame_initialize = blit ''Content-Length: 91'' @ [13, 10, 13, 10]
     @ blit ''{"seq":1,"type":"response","request_seq":1,"command":"initialize","success":true,"body":{}}''\<close>

definition event_initialized :: json where
  \<open>event_initialized =
     JObj [(lit ''type'', JStr (lit ''event'')), (lit ''event'', JStr (lit ''initialized'')),
           (lit ''body'', JObj [])]\<close>

definition frame_initialized :: bytes where
  \<open>frame_initialized = blit ''Content-Length: 48'' @ [13, 10, 13, 10]
     @ blit ''{"type":"event","event":"initialized","body":{}}''\<close>

definition response_configuration_done :: json where
  \<open>response_configuration_done =
     JObj [(lit ''type'', JStr (lit ''response'')),
           (lit ''command'', JStr (lit ''configurationDone''))]\<close>

definition frame_configuration_done :: bytes where
  \<open>frame_configuration_done = blit ''Content-Length: 49'' @ [13, 10, 13, 10]
     @ blit ''{"type":"response","command":"configurationDone"}''\<close>

definition response_stack_trace :: json where
  \<open>response_stack_trace =
     JObj [(lit ''type'', JStr (lit ''response'')), (lit ''command'', JStr (lit ''stackTrace'')),
           (lit ''body'', JObj [(lit ''stackFrames'', JArr [JObj [(lit ''id'', JInt 100)]])])]\<close>

definition frame_stack_trace :: bytes where
  \<open>frame_stack_trace = blit ''Content-Length: 78'' @ [13, 10, 13, 10]
     @ blit ''{"type":"response","command":"stackTrace","body":{"stackFrames":[{"id":100}]}}''\<close>

definition response_scopes :: json where
  \<open>response_scopes =
     JObj [(lit ''type'', JStr (lit ''response'')), (lit ''command'', JStr (lit ''scopes'')),
           (lit ''body'',
              JObj [(lit ''scopes'',
                 JArr [JObj [(lit ''name'', JStr (lit ''Locals'')),
                             (lit ''variablesReference'', JInt 55)]])])]\<close>

definition frame_scopes :: bytes where
  \<open>frame_scopes = blit ''Content-Length: 100'' @ [13, 10, 13, 10]
     @ blit ''{"type":"response","command":"scopes","body":{"scopes":[{"name":"Locals","variablesReference":55}]}}''\<close>

definition response_variables :: json where
  \<open>response_variables =
     JObj [(lit ''type'', JStr (lit ''response'')), (lit ''command'', JStr (lit ''variables'')),
           (lit ''body'',
              JObj [(lit ''variables'',
                 JArr [JObj [(lit ''name'', JStr (lit ''x'')),
                             (lit ''value'', JStr (lit ''42''))]])])]\<close>

definition frame_variables :: bytes where
  \<open>frame_variables = blit ''Content-Length: 90'' @ [13, 10, 13, 10]
     @ blit ''{"type":"response","command":"variables","body":{"variables":[{"name":"x","value":"42"}]}}''\<close>

text \<open>The bytes of the whole session, in the order in which the client reads them.\<close>

definition session_frames :: bytes where
  "session_frames =
     frame_initialize @ frame_initialized @ frame_set_breakpoints @ frame_configuration_done
     @ frame_stopped @ frame_stack_trace @ frame_scopes @ frame_variables"

text \<open>
  \<open>session_at cl w h n inp sent wd\<close>: the client holds the open, connected socket \<open>h\<close>, its
  next sequence number is \<open>n\<close>, the bytes \<open>inp\<close> are still to arrive, the frames \<open>sent\<close> were
  written, and the working directory is \<open>wd\<close>.
\<close>

definition session_at ::
  "DAPClient \<Rightarrow> world \<Rightarrow> nat \<Rightarrow> int \<Rightarrow> bytes \<Rightarrow> bytes list \<Rightarrow> str \<Rightarrow> bool"
where
  "session_at cl w h n inp sent wd \<longleftrightarrow>
     socket cl = Some h \<and> seq cl = n \<and> debug_port cl = 5678
     \<and> sk_connected (socks w h) \<and> sk_closed (socks w h) = 0
     \<and> concat (sk_in (socks w h)) = inp \<and> sk_sent (socks w h) = sent \<and> cwd w = wd"

text \<open>
  Worlds for the examples: nothing listens and nothing was created yet; and the same
  with a stub adapter at localhost:5678 that delivers the given chunks.
\<close>

definition idle_world :: world where
  "idle_world =
     \<lparr>socks = (\<lambda>h. new_sock), nsocks = 0,
      procs = (\<lambda>p. \<lparr>pr_terminated = 0, pr_waited = 0\<rparr>), nprocs = 0,
      peers = (\<lambda>host port. None), cwd = lit ''/work'', can_spawn = True\<rparr>"

definition stub_world :: "bytes list \<Rightarrow> world" where
  "stub_world chunks =
     idle_world\<lparr>peers := \<lambda>host port.
        if host = lit ''localhost'' \<and> port = 5678 then Some chunks else None\<rparr>"

text \<open>A client connected to socket 0, and the world in which socket 0 holds \<open>chunks\<close>.\<close>

definition connected_client :: DAPClient where
  "connected_client = DAPClient_init\<lparr>socket := Some 0\<rparr>"

definition connected_world :: "bytes list \<Rightarrow> world" where
  "connected_world chunks =
     (stub_world chunks)\<lparr>socks := (\<lambda>h. new_sock)(0 := new_sock\<lparr>sk_connected := True, sk_in := chunks\<rparr>),
                          nsocks := 1\<rparr>"

section \<open>Content-Length of an outgoing request\<close>

lemma digits_ascii: "c \<in> set (digits n) \<Longrightarrow> c < 128"
proof (induction n arbitrary: c rule: digits.induct)
  case (1 n)
  show ?case
  proof (cases "n < 10")
    case True
    with "1.prems" show ?thesis by (simp add: digits.simps [of n])
  next
    case False
    with "1.prems" have "c \<in> set (digits (n div 10)) \<or> c = 48 + n mod 10"
      by (auto simp: digits.simps [of n])
    then show ?thesis
    proof
      assume "c \<in> set (digits (n div 10))"
      with False "1.IH" show ?thesis by simp
    next
      assume "c = 48 + n mod 10"
      moreover have "n mod 10 < 10" by simp
      ultimately show ?thesis by linarith
    qed
  qed
qed

lemma py_str_int_ascii: "c \<in> set (py_str_int i) \<Longrightarrow> c < 128"
  by (auto simp: py_str_int_def split: if_splits dest: digits_ascii)

lemma hexd_ascii: "d < 16 \<Longrightarrow> hexd d < 128"
  by (simp add: hexd_def)

lemma hex4_ascii: "c \<in> set (hex4 n) \<Longrightarrow> c < 128"
  by (auto simp: hex4_def intro!: hexd_ascii)

lemma esc_char_ascii: "c' \<in> set (esc_char c) \<Longrightarrow> c' < 128"
  by (auto simp: esc_char_def split: if_splits dest: hex4_ascii)

lemma quote_ascii: "c \<in> set (quote s) \<Longrightarrow> c < 128"
  by (auto simp: quote_def dest: esc_char_ascii)

lemma float_repr_ascii:
  assumes c: "c \<in> set (float_repr f)"
  shows "c < 128"
proof (cases f)
  case (Float neg i fr ex)
  have m: "\<And>d::nat. 48 + d mod 10 < 128"
  proof -
    fix d :: nat
    have "d mod 10 < 10" by simp
    then show "48 + d mod 10 < 128" by linarith
  qed
  from Float show ?thesis using m c
    by (auto simp: float_repr_def split: if_splits option.splits
             dest: digits_ascii py_str_int_ascii)
next
  case NaN
  then show ?thesis using c
    by (auto simp: float_repr_def lit_def)
next
  case (Infinity neg)
  then show ?thesis using c
    by (auto simp: float_repr_def lit_def split: if_splits)
qed

lemma join_ascii:
  "(\<And>c. c \<in> set sep \<Longrightarrow> c < (128::nat)) \<Longrightarrow> (\<And>p c. p \<in> set ps \<Longrightarrow> c \<in> set p \<Longrightarrow> c < 128)
   \<Longrightarrow> c \<in> set (join sep ps) \<Longrightarrow> c < 128"
  by (induction sep ps rule: join.induct) auto

lemma comma_ascii: "c \<in> set (lit '', '') \<Longrightarrow> c < 128"
  by (auto simp: lit_def)

lemma dumps_ascii_all:
  "(\<forall>c \<in> set (dumps j). c < 128)"
  "(\<forall>p \<in> set (dumps_list js). \<forall>c \<in> set p. c < 128)"
  "(\<forall>p \<in> set (dumps_items kvs). \<forall>c \<in> set p. c < 128)"
proof (induction j and js and kvs rule: dumps_dumps_list_dumps_items.induct)
  case 1
  then show ?case by (auto simp: lit_def)
next
  case (2 b)
  then show ?case by (auto simp: lit_def)
next
  case (3 i)
  then show ?case by (auto dest: py_str_int_ascii)
next
  case (4 f)
  then show ?case by (auto dest: float_repr_ascii)
next
  case (5 s)
  then show ?case by (auto dest: quote_ascii)
next
  case (6 xs)
  show ?case
  proof (cases "xs = []")
    case True
    then show ?thesis by (auto simp: lit_def)
  next
    case False
    with 6 have ih: "\<And>p c. p \<in> set (dumps_list xs) \<Longrightarrow> c \<in> set p \<Longrightarrow> c < 128" by blast
    from False show ?thesis
      using join_ascii [of "lit '', ''" "dumps_list xs", OF comma_ascii ih] by auto
  qed
next
  case (7 kvs)
  show ?case
  proof (cases "kvs = []")
    case True
    then show ?thesis by (auto simp: lit_def)
  next
    case False
    with 7 have ih: "\<And>p c. p \<in> set (dumps_items kvs) \<Longrightarrow> c \<in> set p \<Longrightarrow> c < 128" by blast
    from False show ?thesis
      using join_ascii [of "lit '', ''" "dumps_items kvs", OF comma_ascii ih] by auto
  qed
next
  case 8
  then show ?case by simp
next
  case (9 x xs)
  then show ?case by simp
next
  case 10
  then show ?case by simp
next
  case (11 kv kvs)
  then show ?case by (auto simp: lit_def dest: quote_ascii)
qed

lemma dumps_ascii: "c \<in> set (dumps j) \<Longrightarrow> c < 128"
  using dumps_ascii_all(1) by blast

lemma encode_utf8_ascii:
  "(\<And>c. c \<in> set s \<Longrightarrow> c < 128) \<Longrightarrow> encode_utf8 s = Inr (map of_nat s)"
  by (induction s) (auto simp: utf8_char_def)

lemma encode_utf8_append:
  "encode_utf8 a = Inr x \<Longrightarrow> encode_utf8 b = Inr y \<Longrightarrow> encode_utf8 (a @ b) = Inr (x @ y)"
  by (induction a arbitrary: x) (auto split: option.splits sum.splits)

lemma connect_stub:
  "connect DAPClient_init (stub_world chunks) (lit ''localhost'') 5678
     = (Inr (), connected_client, connected_world chunks)"
  by (simp add: connect_def stub_world_def idle_world_def connected_client_def
      connected_world_def set_sock_def Let_def DAPClient_init_def)

lemma content_length_of_dumps: "content_length_of (dumps j) = Inr (length (dumps j))"
  using encode_utf8_ascii [of "dumps j"] by (simp add: content_length_of_def dumps_ascii)

lemma full_message_ascii: "c \<in> set (full_message n (dumps j)) \<Longrightarrow> c < 128"
  by (auto simp: full_message_def lit_def dest: py_str_int_ascii dumps_ascii)

lemma frame_message_dumps:
  "frame_message (dumps j) = Inr (map of_nat (full_message (length (dumps j)) (dumps j)))"
  using encode_utf8_ascii [of "full_message (length (dumps j)) (dumps j)"]
  by (simp add: frame_message_def content_length_of_dumps full_message_ascii)

lemma request_bytes_eq:
  "request_bytes n c a =
     map of_nat (full_message (length (dumps (make_request n c a))) (dumps (make_request n c a)))"
  by (simp add: request_bytes_def frame_message_dumps)

lemma send_request_write_seq:
  "send_request_write cl w c a = (r, cl', w') \<Longrightarrow> cl' = cl\<lparr>seq := seq cl + 1\<rparr>"
  by (auto simp: send_request_write_def Let_def split: sum.splits option.splits)


lemma send_request_write_ok:
  assumes "socket cl = Some h" "sk_connected (socks w h)" "sk_closed (socks w h) = 0"
  shows "send_request_write cl w c a =
           (Inr (), cl\<lparr>seq := seq cl + 1\<rparr>,
            set_sock w h ((socks w h)\<lparr>sk_sent := sk_sent (socks w h) @ [request_bytes (seq cl) c a]\<rparr>))"
  using assms encode_utf8_ascii [of "full_message (length (dumps (make_request (seq cl) c a))) (dumps (make_request (seq cl) c a))"]
  by (simp add: send_request_write_def Let_def content_length_of_dumps full_message_ascii
      sock_send_def request_bytes_eq)


lemma connected_world_sock0:
  "socks (connected_world chunks) 0 = new_sock\<lparr>sk_connected := True, sk_in := chunks\<rparr>"
  by (simp add: connected_world_def)

lemma connected_client_ready:
  "socket connected_client = Some 0" "sk_connected (socks (connected_world chunks) 0)"
  "sk_closed (socks (connected_world chunks) 0) = 0" "seq connected_client = 1"
  "debug_port connected_client = 5678"
  by (simp_all add: connected_client_def connected_world_def new_sock_def DAPClient_init_def)

section \<open>What reading changes\<close>

lemma take_chunk_one:
  "fst (take_chunk 1 cs) = take 1 (concat cs) \<and> concat (snd (take_chunk 1 cs)) = drop 1 (concat cs)"
proof (induction cs)
  case Nil
  then show ?case by simp
next
  case (Cons c cs)
  then show ?case by (cases c) auto
qed

lemma take_chunk_concat: "fst (take_chunk n cs) @ concat (snd (take_chunk n cs)) = concat cs"
  by (induction cs) auto

lemma take_chunk_length: "length (fst (take_chunk n cs)) \<le> n"
  by (induction cs) auto

lemma take_chunk_nonempty: "0 < n \<Longrightarrow> concat cs \<noteq> [] \<Longrightarrow> fst (take_chunk n cs) \<noteq> []"
  by (induction cs) auto

lemma take_chunk_empty: "concat cs = [] \<Longrightarrow> take_chunk n cs = ([], [])"
  by (induction cs) auto

lemma sock_recv_open:
  "sk_connected s \<Longrightarrow> sk_closed s = 0 \<Longrightarrow>
   sock_recv s n = Inr (fst (take_chunk n (sk_in s)), s\<lparr>sk_in := snd (take_chunk n (sk_in s))\<rparr>)"
  by (simp add: sock_recv_def)

lemma sock_recv_shut:
  "\<not> sk_connected s \<or> 0 < sk_closed s \<Longrightarrow> sock_recv s n = Inl OSError"
  by (auto simp: sock_recv_def)

lemma reads_only_trans:
  "(b::sock) = a\<lparr>sk_in := sk_in b\<rparr> \<Longrightarrow> c = b\<lparr>sk_in := sk_in c\<rparr> \<Longrightarrow> c = a\<lparr>sk_in := sk_in c\<rparr>"
  by (cases a, cases b, cases c) simp

lemma sock_recv_frame: "sock_recv s n = Inr r \<Longrightarrow> snd r = s\<lparr>sk_in := sk_in (snd r)\<rparr>"
  by (auto simp: sock_recv_def split: if_splits)

lemma read_headers_frame:
  assumes "read_headers s hs = Some y"
  shows "snd y = s\<lparr>sk_in := sk_in (snd y)\<rparr>"
proof (rule read_headers.raw_induct
    [where P = "\<lambda>s hs y. snd y = s\<lparr>sk_in := sk_in (snd y)\<rparr>", OF _ assms])
  fix rh s hs y
  assume IH: "\<And>s hs y. rh s hs = Some y \<Longrightarrow> snd y = s\<lparr>sk_in := sk_in (snd y)\<rparr>"
    and body: "(if contains [13, 10, 13, 10] hs then Some (Inr hs, s)
        else case sock_recv s 1 of Inl e \<Rightarrow> Some (Inl e, s)
             | Inr r \<Rightarrow> rh (snd r) (hs @ fst r)) = Some y"
  show "snd y = s\<lparr>sk_in := sk_in (snd y)\<rparr>"
  proof (cases "contains [13, 10, 13, 10] hs")
    case True
    with body show ?thesis by auto
  next
    case False
    show ?thesis
    proof (cases "sock_recv s 1")
      case (Inl e)
      with False body show ?thesis by auto
    next
      case (Inr r)
      with False body have "rh (snd r) (hs @ fst r) = Some y" by simp
      then have "snd y = (snd r)\<lparr>sk_in := sk_in (snd y)\<rparr>" by (rule IH)
      moreover from Inr have "snd r = s\<lparr>sk_in := sk_in (snd r)\<rparr>"
        by (rule sock_recv_frame)
      ultimately show ?thesis using reads_only_trans by blast
    qed
  qed
qed

lemma read_body_frame:
  assumes "read_body s n body = Some y"
  shows "snd y = s\<lparr>sk_in := sk_in (snd y)\<rparr>"
proof (rule read_body.raw_induct
    [where P = "\<lambda>s n body y. snd y = s\<lparr>sk_in := sk_in (snd y)\<rparr>", OF _ assms])
  fix rb s n body y
  assume IH: "\<And>s n body y. rb s n body = Some y \<Longrightarrow> snd y = s\<lparr>sk_in := sk_in (snd y)\<rparr>"
    and body: "(if int (length body) < n
        then case sock_recv s (nat (n - int (length body))) of Inl e \<Rightarrow> Some (Inl e, s)
             | Inr r \<Rightarrow> rb (snd r) n (body @ fst r)
        else Some (Inr body, s)) = Some y"
  show "snd y = s\<lparr>sk_in := sk_in (snd y)\<rparr>"
  proof (cases "int (length body) < n")
    case False
    with body show ?thesis by auto
  next
    case True
    show ?thesis
    proof (cases "sock_recv s (nat (n - int (length body)))")
      case (Inl e)
      with True body show ?thesis by auto
    next
      case (Inr r)
      with True body have "rb (snd r) n (body @ fst r) = Some y" by simp
      then have "snd y = (snd r)\<lparr>sk_in := sk_in (snd y)\<rparr>" by (rule IH)
      moreover from Inr have "snd r = s\<lparr>sk_in := sk_in (snd r)\<rparr>"
        by (rule sock_recv_frame)
      ultimately show ?thesis using reads_only_trans by blast
    qed
  qed
qed

lemma sock_read_response_frame:
  assumes "sock_read_response s = Some y"
  shows "snd y = s\<lparr>sk_in := sk_in (snd y)\<rparr>"
proof -
  from assms obtain rh s1 where h: "read_headers s [] = Some (rh, s1)"
    by (auto simp: sock_read_response_def split: option.splits)
  then have s1: "s1 = s\<lparr>sk_in := sk_in s1\<rparr>" using read_headers_frame by fastforce
  show ?thesis
  proof (cases rh)
    case (Inl e)
    with assms h s1 show ?thesis by (auto simp: sock_read_response_def)
  next
    case (Inr headers)
    show ?thesis
    proof (cases "parse_content_length headers")
      case (Inl e)
      with assms h Inr s1 show ?thesis by (auto simp: sock_read_response_def)
    next
      case n: (Inr n)
      with assms h Inr obtain rb s2 where b: "read_body s1 n [] = Some (rb, s2)"
        by (auto simp: sock_read_response_def split: option.splits)
      then have s2: "s2 = s1\<lparr>sk_in := sk_in s2\<rparr>" using read_body_frame by fastforce
      from assms h Inr n b have "snd y = s2"
        by (auto simp: sock_read_response_def split: sum.splits)
      with s1 s2 show ?thesis using reads_only_trans by blast
    qed
  qed
qed

lemma same_but_input_refl: "same_but_input w w"
  by (simp add: same_but_input_def)

lemma same_but_input_trans:
  "same_but_input w1 w2 \<Longrightarrow> same_but_input w2 w3 \<Longrightarrow> same_but_input w1 w3"
  by (simp add: same_but_input_def)

lemma same_but_input_set_sock:
  "s' = (socks w h)\<lparr>sk_in := x\<rparr> \<Longrightarrow> same_but_input w (set_sock w h s')"
  by (simp add: same_but_input_def set_sock_def)

lemma read_response_frame:
  assumes "read_response cl w = Some y"
  shows "same_but_input w (snd y)"
proof (cases "socket cl")
  case None
  with assms show ?thesis by (auto simp: read_response_def same_but_input_refl)
next
  case (Some h)
  with assms obtain r where r: "sock_read_response (socks w h) = Some r"
    and y: "y = (fst r, set_sock w h (snd r))"
    by (auto simp: read_response_def split: option.splits)
  from sock_read_response_frame [OF r]
  have "snd r = (socks w h)\<lparr>sk_in := sk_in (snd r)\<rparr>" .
  then have "same_but_input w (set_sock w h (snd r))" by (rule same_but_input_set_sock)
  with y show ?thesis by simp
qed

lemma send_request_wait_frame:
  assumes "send_request_wait cl w command = Some y"
  shows "same_but_input w (snd y)"
proof (rule send_request_wait.raw_induct
    [where P = "\<lambda>cl w command y. same_but_input w (snd y)", OF _ assms])
  fix f cl w command y
  assume IH: "\<And>cl w command y. f cl w command = Some y \<Longrightarrow> same_but_input w (snd y)"
    and body: "(case read_response cl w of None \<Rightarrow> None
        | Some r \<Rightarrow>
            (case fst r of Inl e \<Rightarrow> Some (Inl e, snd r)
             | Inr response \<Rightarrow>
                 (case is_response_to command response of Inl e \<Rightarrow> Some (Inl e, snd r)
                  | Inr b \<Rightarrow> if b then Some (Inr response, snd r) else f cl (snd r) command)))
        = Some y"
  from body obtain r where r: "read_response cl w = Some r" by (auto split: option.splits)
  then have rw: "same_but_input w (snd r)" by (rule read_response_frame)
  have "snd y = snd r \<or> f cl (snd r) command = Some y"
    using body r by (auto split: sum.splits if_splits)
  then show "same_but_input w (snd y)"
  proof
    assume "snd y = snd r"
    with rw show ?thesis by simp
  next
    assume "f cl (snd r) command = Some y"
    then have "same_but_input (snd r) (snd y)" by (rule IH)
    with rw show ?thesis by (rule same_but_input_trans)
  qed
qed

lemma wait_event_loop_frame:
  assumes "wait_event_loop cl w name = Some y"
  shows "same_but_input w (snd y)"
proof (rule wait_event_loop.raw_induct
    [where P = "\<lambda>cl w name y. same_but_input w (snd y)", OF _ assms])
  fix f cl w name y
  assume IH: "\<And>cl w name y. f cl w name = Some y \<Longrightarrow> same_but_input w (snd y)"
    and body: "(case read_response cl w of None \<Rightarrow> None
        | Some r \<Rightarrow>
            (case fst r of Inl e \<Rightarrow> Some (Inl e, snd r)
             | Inr response \<Rightarrow>
                 (case is_event name response of Inl e \<Rightarrow> Some (Inl e, snd r)
                  | Inr b \<Rightarrow> if b then Some (Inr response, snd r) else f cl (snd r) name)))
        = Some y"
  from body obtain r where r: "read_response cl w = Some r" by (auto split: option.splits)
  then have rw: "same_but_input w (snd r)" by (rule read_response_frame)
  have "snd y = snd r \<or> f cl (snd r) name = Some y"
    using body r by (auto split: sum.splits if_splits)
  then show "same_but_input w (snd y)"
  proof
    assume "snd y = snd r"
    with rw show ?thesis by simp
  next
    assume "f cl (snd r) name = Some y"
    then have "same_but_input (snd r) (snd y)" by (rule IH)
    with rw show ?thesis by (rule same_but_input_trans)
  qed
qed



section \<open>Claims about writing a request\<close>

text \<open>
  Claim C10. A call of \<^verbatim>\<open>send_request\<close> that returns or raises, whatever its command,
  arguments and wait flag, leaves the client object with \<open>seq\<close> increased by exactly 1
  and with \<open>debug_port\<close> and \<open>socket\<close> as they were. (The socket field holds the handle of
  the socket object; what the call does to the object itself is in the world.)
\<close>

theorem send_request_frame:
  assumes "send_request cl w command arguments wait_for_response = Some (r, cl', w')"
  shows "seq cl' = seq cl + 1 \<and> debug_port cl' = debug_port cl \<and> socket cl' = socket cl"
proof -
  obtain r0 cl0 w0 where wr: "send_request_write cl w command arguments = (r0, cl0, w0)"
    by (cases "send_request_write cl w command arguments") auto
  then have cl0: "cl0 = cl\<lparr>seq := seq cl + 1\<rparr>" by (rule send_request_write_seq)
  from assms wr have "cl' = cl0"
    by (auto simp: send_request_def split: sum.splits if_splits option.splits)
  with cl0 show ?thesis by simp
qed

text \<open>
  Witness for C10: an \<^verbatim>\<open>attach\<close> request without wait on a connected client.
\<close>

theorem send_request_frame_witness:
  "send_request connected_client (connected_world []) (lit ''attach'') None False
     = Some (Inr None, connected_client\<lparr>seq := 2\<rparr>,
             set_sock (connected_world []) 0
               ((socks (connected_world []) 0)\<lparr>sk_sent := [request_bytes 1 (lit ''attach'') None]\<rparr>))
   \<and> seq (connected_client\<lparr>seq := 2\<rparr>) = seq connected_client + 1
   \<and> debug_port (connected_client\<lparr>seq := 2\<rparr>) = debug_port connected_client
   \<and> socket (connected_client\<lparr>seq := 2\<rparr>) = socket connected_client"
proof -
  have h: "send_request connected_client (connected_world []) (lit ''attach'') None False
     = Some (Inr None, connected_client\<lparr>seq := 2\<rparr>,
             set_sock (connected_world []) 0
               ((socks (connected_world []) 0)\<lparr>sk_sent := [request_bytes 1 (lit ''attach'') None]\<rparr>))"
    by (simp add: send_request_def send_request_write_ok [OF connected_client_ready(1-3)]
        connected_client_ready connected_world_sock0 new_sock_def)
  from send_request_frame [OF h] h show ?thesis by simp
qed







section \<open>Sequence numbers\<close>


lemma send_request_no_wait_ok:
  assumes "socket cl = Some h" "sk_connected (socks w h)" "sk_closed (socks w h) = 0"
  shows "send_request cl w command arguments False =
           Some (Inr None, cl\<lparr>seq := seq cl + 1\<rparr>,
            set_sock w h ((socks w h)\<lparr>sk_sent := sk_sent (socks w h) @ [request_bytes (seq cl) command arguments]\<rparr>))"
  by (simp add: send_request_def send_request_write_ok [OF assms])






section \<open>Reading does not depend on the chunking\<close>

lemma read_headers_diverges:
  assumes "sk_connected s" "sk_closed s = 0" "concat (sk_in s) = []"
    "\<not> contains [13, 10, 13, 10] hs"
  shows "read_headers s hs = None"
proof (rule ccontr)
  assume "read_headers s hs \<noteq> None"
  then obtain y where y: "read_headers s hs = Some y" by auto
  have "\<not> (sk_connected s \<and> sk_closed s = 0 \<and> concat (sk_in s) = []
            \<and> \<not> contains [13, 10, 13, 10] hs)"
  proof (rule read_headers.raw_induct
      [where P = "\<lambda>s hs y. \<not> (sk_connected s \<and> sk_closed s = 0 \<and> concat (sk_in s) = []
            \<and> \<not> contains [13, 10, 13, 10] hs)", OF _ y])
    fix rh s hs and y :: "(exn + bytes) \<times> sock"
    assume IH: "\<And>s hs y. rh s hs = Some y \<Longrightarrow>
          \<not> (sk_connected s \<and> sk_closed s = 0 \<and> concat (sk_in s) = []
             \<and> \<not> contains [13, 10, 13, 10] hs)"
      and body: "(if contains [13, 10, 13, 10] hs then Some (Inr hs, s)
        else case sock_recv s 1 of Inl e \<Rightarrow> Some (Inl e, s)
             | Inr r \<Rightarrow> rh (snd r) (hs @ fst r)) = Some y"
    show "\<not> (sk_connected s \<and> sk_closed s = 0 \<and> concat (sk_in s) = []
            \<and> \<not> contains [13, 10, 13, 10] hs)"
    proof
      assume c: "sk_connected s \<and> sk_closed s = 0 \<and> concat (sk_in s) = []
            \<and> \<not> contains [13, 10, 13, 10] hs"
      then have "sock_recv s 1 = Inr ([], s\<lparr>sk_in := []\<rparr>)"
        by (simp add: sock_recv_def take_chunk_empty)
      with c body have "rh (s\<lparr>sk_in := []\<rparr>) hs = Some y" by simp
      from IH [OF this] c show False by simp
    qed
  qed
  with assms show False by simp
qed

lemma read_headers_stop:
  "contains [13, 10, 13, 10] hs \<Longrightarrow> read_headers s hs = Some (Inr hs, s)"
  by (subst read_headers.simps) simp

lemma sock_sk_in_same: "s\<lparr>sk_in := sk_in s\<rparr> = (s::sock)"
  by simp

lemma read_headers_flat_aux:
  "sk_connected s \<Longrightarrow> sk_closed s = 0 \<Longrightarrow> concat (sk_in s) = inp \<Longrightarrow>
     (headers_flat inp hs = None \<longrightarrow> read_headers s hs = None)
   \<and> (\<forall>h rest. headers_flat inp hs = Some (h, rest)
        \<longrightarrow> (\<exists>cs'. concat cs' = rest \<and> read_headers s hs = Some (Inr h, s\<lparr>sk_in := cs'\<rparr>)))"
proof (induction inp arbitrary: s hs)
  case Nil
  show ?case
  proof (cases "contains [13, 10, 13, 10] hs")
    case True
    have "concat (sk_in s) = [] \<and> read_headers s hs = Some (Inr hs, s\<lparr>sk_in := sk_in s\<rparr>)"
      using True Nil(3) by (simp add: read_headers_stop)
    then have "\<exists>cs'. concat cs' = [] \<and> read_headers s hs = Some (Inr hs, s\<lparr>sk_in := cs'\<rparr>)"
      by blast
    with True show ?thesis by simp
  next
    case False
    with Nil have "read_headers s hs = None" by (simp add: read_headers_diverges)
    with False show ?thesis by simp
  qed
next
  case (Cons b bs)
  show ?case
  proof (cases "contains [13, 10, 13, 10] hs")
    case True
    have "concat (sk_in s) = b # bs \<and> read_headers s hs = Some (Inr hs, s\<lparr>sk_in := sk_in s\<rparr>)"
      using True Cons(4) by (simp add: read_headers_stop)
    then have "\<exists>cs'. concat cs' = b # bs \<and> read_headers s hs = Some (Inr hs, s\<lparr>sk_in := cs'\<rparr>)"
      by blast
    with True show ?thesis by simp
  next
    case False
    let ?s1 = "s\<lparr>sk_in := snd (take_chunk 1 (sk_in s))\<rparr>"
    have f: "fst (take_chunk 1 (sk_in s)) = [b]"
      using take_chunk_one [of "sk_in s"] Cons(4) by simp
    have c1: "concat (sk_in ?s1) = bs"
      using take_chunk_one [of "sk_in s"] Cons(4) by simp
    have recv: "sock_recv s 1 = Inr ([b], ?s1)"
      using Cons(2,3) f by (simp add: sock_recv_def)
    have step: "read_headers s hs = read_headers ?s1 (hs @ [b])"
      using False recv by (subst read_headers.simps) simp
    have flat: "headers_flat (b # bs) hs = headers_flat bs (hs @ [b])"
      using False by simp
    have ih: "(headers_flat bs (hs @ [b]) = None \<longrightarrow> read_headers ?s1 (hs @ [b]) = None)
       \<and> (\<forall>h rest. headers_flat bs (hs @ [b]) = Some (h, rest)
            \<longrightarrow> (\<exists>cs'. concat cs' = rest
                  \<and> read_headers ?s1 (hs @ [b]) = Some (Inr h, ?s1\<lparr>sk_in := cs'\<rparr>)))"
      using Cons(1) [of ?s1 "hs @ [b]"] c1 Cons(2,3) by simp
    show ?thesis unfolding step flat using ih by simp
  qed
qed


lemma read_body_done:
  "\<not> int (length body) < n \<Longrightarrow> read_body s n body = Some (Inr body, s)"
  by (subst read_body.simps) simp

lemma read_body_diverges:
  assumes "sk_connected s" "sk_closed s = 0" "concat (sk_in s) = []" "int (length body) < n"
  shows "read_body s n body = None"
proof (rule ccontr)
  assume "read_body s n body \<noteq> None"
  then obtain y where y: "read_body s n body = Some y" by auto
  have "\<not> (sk_connected s \<and> sk_closed s = 0 \<and> concat (sk_in s) = [] \<and> int (length body) < n)"
  proof (rule read_body.raw_induct
      [where P = "\<lambda>s n body y. \<not> (sk_connected s \<and> sk_closed s = 0 \<and> concat (sk_in s) = []
            \<and> int (length body) < n)", OF _ y])
    fix rb s n body and y :: "(exn + bytes) \<times> sock"
    assume IH: "\<And>s n body y. rb s n body = Some y \<Longrightarrow>
          \<not> (sk_connected s \<and> sk_closed s = 0 \<and> concat (sk_in s) = [] \<and> int (length body) < n)"
      and body: "(if int (length body) < n
        then case sock_recv s (nat (n - int (length body))) of Inl e \<Rightarrow> Some (Inl e, s)
             | Inr r \<Rightarrow> rb (snd r) n (body @ fst r)
        else Some (Inr body, s)) = Some y"
    show "\<not> (sk_connected s \<and> sk_closed s = 0 \<and> concat (sk_in s) = [] \<and> int (length body) < n)"
    proof
      assume c: "sk_connected s \<and> sk_closed s = 0 \<and> concat (sk_in s) = [] \<and> int (length body) < n"
      then have "sock_recv s (nat (n - int (length body))) = Inr ([], s\<lparr>sk_in := []\<rparr>)"
        by (simp add: sock_recv_def take_chunk_empty)
      with c body have "rb (s\<lparr>sk_in := []\<rparr>) n body = Some y" by simp
      from IH [OF this] c show False by simp
    qed
  qed
  with assms show False by simp
qed

lemma take_drop_split:
  "length b \<le> k \<Longrightarrow>
   take k (b @ c) = b @ take (k - length b) c \<and> drop k (b @ c) = drop (k - length b) c"
  by simp

lemma read_body_flat_aux:
  "sk_connected s \<Longrightarrow> sk_closed s = 0 \<Longrightarrow> concat (sk_in s) = inp \<Longrightarrow>
     (length inp < nat (n - int (length body)) \<longrightarrow> read_body s n body = None)
   \<and> (nat (n - int (length body)) \<le> length inp
        \<longrightarrow> (\<exists>cs'. concat cs' = drop (nat (n - int (length body))) inp
              \<and> read_body s n body
                  = Some (Inr (body @ take (nat (n - int (length body))) inp), s\<lparr>sk_in := cs'\<rparr>)))"
proof (induction "length inp" arbitrary: s body inp rule: less_induct)
  case less
  let ?need = "nat (n - int (length body))"
  show ?case
  proof (cases "int (length body) < n")
    case False
    then have need0: "?need = 0" by simp
    have "concat (sk_in s) = inp \<and> read_body s n body = Some (Inr body, s\<lparr>sk_in := sk_in s\<rparr>)"
      using False less(4) by (simp add: read_body_done)
    then have "\<exists>cs'. concat cs' = inp \<and> read_body s n body = Some (Inr body, s\<lparr>sk_in := cs'\<rparr>)"
      by blast
    with need0 show ?thesis by simp
  next
    case True
    then have needpos: "0 < ?need" by simp
    show ?thesis
    proof (cases "inp = []")
      case e: True
      with less True have "read_body s n body = None" by (simp add: read_body_diverges)
      with e needpos show ?thesis by simp
    next
      case ne: False
      let ?b = "fst (take_chunk ?need (sk_in s))"
      let ?cs1 = "snd (take_chunk ?need (sk_in s))"
      let ?s1 = "s\<lparr>sk_in := ?cs1\<rparr>"
      have cat: "?b @ concat ?cs1 = inp" using take_chunk_concat [of ?need "sk_in s"] less(4) by simp
      have len: "length ?b \<le> ?need" by (rule take_chunk_length)
      have bne: "?b \<noteq> []" using take_chunk_nonempty [OF needpos, of "sk_in s"] less(4) ne by simp
      have recv: "sock_recv s ?need = Inr (?b, ?s1)" using less(2,3) by (simp add: sock_recv_def)
      have step: "read_body s n body = read_body ?s1 n (body @ ?b)"
        using True recv by (subst read_body.simps) simp
      have li: "length inp = length ?b + length (concat ?cs1)"
        using arg_cong [OF cat, of length] by simp
      have shorter: "length (concat ?cs1) < length inp"
        using li bne by simp
      have need1: "nat (n - int (length (body @ ?b))) = ?need - length ?b" by simp
      have ih: "(length (concat ?cs1) < ?need - length ?b \<longrightarrow> read_body ?s1 n (body @ ?b) = None)
         \<and> (?need - length ?b \<le> length (concat ?cs1)
            \<longrightarrow> (\<exists>cs'. concat cs' = drop (?need - length ?b) (concat ?cs1)
                \<and> read_body ?s1 n (body @ ?b)
                   = Some (Inr ((body @ ?b) @ take (?need - length ?b) (concat ?cs1)),
                           ?s1\<lparr>sk_in := cs'\<rparr>)))"
        using less(1) [OF shorter, of ?s1 "body @ ?b"] less(2,3) need1 by simp
      have tk: "take ?need inp = ?b @ take (?need - length ?b) (concat ?cs1)"
        using take_drop_split [OF len, of "concat ?cs1"] cat by simp
      have dr: "drop ?need inp = drop (?need - length ?b) (concat ?cs1)"
        using take_drop_split [OF len, of "concat ?cs1"] cat by simp
      show ?thesis
      proof (intro conjI impI)
        assume "length inp < ?need"
        with li len have "length (concat ?cs1) < ?need - length ?b" by linarith
        with ih step show "read_body s n body = None" by simp
      next
        assume "?need \<le> length inp"
        with li len have "?need - length ?b \<le> length (concat ?cs1)" by linarith
        with ih obtain cs' where "concat cs' = drop (?need - length ?b) (concat ?cs1)"
          and "read_body ?s1 n (body @ ?b)
                   = Some (Inr ((body @ ?b) @ take (?need - length ?b) (concat ?cs1)),
                           ?s1\<lparr>sk_in := cs'\<rparr>)"
          by blast
        with step tk dr
        have "concat cs' = drop ?need inp
              \<and> read_body s n body = Some (Inr (body @ take ?need inp), s\<lparr>sk_in := cs'\<rparr>)"
          by simp
        then show "\<exists>cs'. concat cs' = drop ?need inp
              \<and> read_body s n body = Some (Inr (body @ take ?need inp), s\<lparr>sk_in := cs'\<rparr>)"
          by blast
      qed
    qed
  qed
qed

lemma read_headers_shut:
  "\<not> sk_connected s \<or> 0 < sk_closed s \<Longrightarrow> read_headers s [] = Some (Inl OSError, s)"
  by (subst read_headers.simps) (auto simp: sock_recv_def is_prefix_def)

lemma sock_read_response_shut:
  "\<not> sk_connected s \<or> 0 < sk_closed s \<Longrightarrow> sock_read_response s = Some (Inl OSError, s)"
  by (simp add: sock_read_response_def read_headers_shut)

lemma sock_read_response_flat:
  assumes "sk_connected s" "sk_closed s = 0"
  shows "(read_flat (concat (sk_in s)) = None \<longrightarrow> sock_read_response s = None)
       \<and> (\<forall>r rest. read_flat (concat (sk_in s)) = Some (r, rest)
            \<longrightarrow> (\<exists>cs'. concat cs' = rest \<and> sock_read_response s = Some (r, s\<lparr>sk_in := cs'\<rparr>)))"
proof (cases "headers_flat (concat (sk_in s)) []")
  case None
  with read_headers_flat_aux [OF assms refl, of "[]"] have "read_headers s [] = None" by simp
  with None show ?thesis by (simp add: read_flat_def sock_read_response_def)
next
  case (Some p)
  obtain h rest where p: "p = (h, rest)" by (cases p)
  with Some read_headers_flat_aux [OF assms refl, of "[]"]
  obtain cs1 where cs1: "concat cs1 = rest"
    and rh: "read_headers s [] = Some (Inr h, s\<lparr>sk_in := cs1\<rparr>)" by auto
  let ?s1 = "s\<lparr>sk_in := cs1\<rparr>"
  show ?thesis
  proof (cases "parse_content_length h")
    case (Inl e)
    with Some p rh cs1 show ?thesis
      by (auto simp: read_flat_def sock_read_response_def)
  next
    case (Inr n)
    have s1: "sk_connected ?s1" "sk_closed ?s1 = 0" "concat (sk_in ?s1) = rest"
      using assms cs1 by simp_all
    note rb = read_body_flat_aux [OF s1, of n "[]"]
    show ?thesis
    proof (cases "length rest < nat n")
      case True
      with rb have "read_body ?s1 n [] = None" by simp
      with Some p rh Inr True show ?thesis
        by (simp add: read_flat_def sock_read_response_def)
    next
      case False
      with rb obtain cs' where cs': "concat cs' = drop (nat n) rest"
        and b: "read_body ?s1 n [] = Some (Inr (take (nat n) rest), ?s1\<lparr>sk_in := cs'\<rparr>)"
        by auto
      have "sock_read_response s = Some (decode_body (take (nat n) rest), s\<lparr>sk_in := cs'\<rparr>)"
        using rh Inr b by (simp add: sock_read_response_def)
      with Some p Inr False cs' show ?thesis
        by (auto simp: read_flat_def)
    qed
  qed
qed

text \<open>The remaining input as a flat byte sequence.\<close>

lemma sock_read_response_concat:
  assumes "sk_connected s" "sk_closed s = 0"
  shows "map_option (\<lambda>p. (fst p, concat (sk_in (snd p)))) (sock_read_response s)
         = read_flat (concat (sk_in s))"
proof (cases "read_flat (concat (sk_in s))")
  case None
  with sock_read_response_flat [OF assms] show ?thesis by simp
next
  case (Some q)
  obtain r rest where "q = (r, rest)" by (cases q)
  with Some sock_read_response_flat [OF assms] show ?thesis by auto
qed

lemma read_response_sock:
  "socket cl = Some h \<Longrightarrow>
   map_option (\<lambda>p. (fst p, concat (sk_in (socks (snd p) h)))) (read_response cl w)
   = map_option (\<lambda>p. (fst p, concat (sk_in (snd p)))) (sock_read_response (socks w h))"
  by (cases "sock_read_response (socks w h)") (simp_all add: read_response_def set_sock_def)

lemma sock_read_response_input:
  assumes "concat (sk_in t) = concat (sk_in s)" "sk_connected t = sk_connected s"
    "sk_closed t = sk_closed s"
  shows "map_option (\<lambda>p. (fst p, concat (sk_in (snd p)))) (sock_read_response t)
       = map_option (\<lambda>p. (fst p, concat (sk_in (snd p)))) (sock_read_response s)"
proof (cases "sk_connected s \<and> sk_closed s = 0")
  case True
  with assms show ?thesis by (simp add: sock_read_response_concat)
next
  case False
  with assms show ?thesis by (auto simp: sock_read_response_shut)
qed

text \<open>Evaluating a read on a given byte sequence.\<close>

lemma contains_skip: "x \<notin> set acc \<Longrightarrow> contains (x # sub) (acc @ t) = contains (x # sub) t"
  by (induction acc) (auto simp: is_prefix_def)

lemma headers_flat_plain:
  "13 \<notin> set acc \<Longrightarrow> 13 \<notin> set h \<Longrightarrow>
   headers_flat (h @ [13, 10, 13, 10] @ rest) acc = Some (acc @ h @ [13, 10, 13, 10], rest)"
proof (induction h arbitrary: acc)
  case Nil
  have a: "\<not> contains [13, 10, 13, 10] acc"
    using contains_skip [OF Nil(1), of "[10, 13, 10]" "[]"] by simp
  have b: "\<not> contains [13, 10, 13, 10] (acc @ [13])"
    using contains_skip [OF Nil(1), of "[10, 13, 10]" "[13]"] by (simp add: is_prefix_def)
  have c: "\<not> contains [13, 10, 13, 10] (acc @ [13, 10])"
    using contains_skip [OF Nil(1), of "[10, 13, 10]" "[13, 10]"] by (simp add: is_prefix_def)
  have d: "\<not> contains [13, 10, 13, 10] (acc @ [13, 10, 13])"
    using contains_skip [OF Nil(1), of "[10, 13, 10]" "[13, 10, 13]"] by (simp add: is_prefix_def)
  have e: "contains [13, 10, 13, 10] (acc @ [13, 10, 13, 10])"
    using contains_skip [OF Nil(1), of "[10, 13, 10]" "[13, 10, 13, 10]"] by (simp add: is_prefix_def)
  have "headers_flat rest (acc @ [13, 10, 13, 10]) = Some (acc @ [13, 10, 13, 10], rest)"
    using e by (cases rest) simp_all
  with a b c d show ?case by simp
next
  case (Cons x h)
  have a: "\<not> contains [13, 10, 13, 10] acc"
    using contains_skip [OF Cons(2), of "[10, 13, 10]" "[]"] by simp
  from Cons(2,3) have "13 \<notin> set (acc @ [x])" by auto
  from Cons(1) [OF this] Cons(3) a show ?case by simp
qed

lemma unat_blit: "map unat (blit s) = lit s"
  by (induction s) (simp_all add: blit_def lit_def unat_of_nat)

lemma decode_utf8_ascii: "\<forall>b\<in>set bs. unat b < 128 \<Longrightarrow> decode_utf8 bs = Inr (map unat bs)"
proof (induction bs)
  case Nil
  then show ?case by simp
next
  case (Cons a bs)
  then have a: "unat a < 128" and ih: "decode_utf8 bs = Inr (map unat bs)" by simp_all
  from a have k: "utf8_follow (unat a) = 0" "utf8_lead (unat a) = unat a" "utf8_min 0 = 0"
    by (simp_all add: utf8_follow_def utf8_lead_def utf8_min_def)
  from a ih show ?case by (simp add: k Let_def)
qed

lemma decode_blit: "\<forall>c\<in>set s. (of_char c :: nat) < 128 \<Longrightarrow> decode_utf8 (blit s) = Inr (lit s)"
  using decode_utf8_ascii [of "blit s"] by (simp add: unat_blit) (simp add: blit_def unat_of_nat)

lemma read_response_eval:
  assumes "socket cl = Some h" "sk_connected (socks w h)" "sk_closed (socks w h) = 0"
    and "concat (sk_in (socks w h)) = hdr @ [13, 10, 13, 10] @ body @ rest"
    and "13 \<notin> set hdr"
    and "parse_content_length (hdr @ [13, 10, 13, 10]) = Inr (int (length body))"
  shows "\<exists>w'. read_response cl w = Some (decode_body body, w')
            \<and> concat (sk_in (socks w' h)) = rest \<and> same_but_input w w'"
proof -
  have hf: "headers_flat (concat (sk_in (socks w h))) [] = Some (hdr @ [13, 10, 13, 10], body @ rest)"
    using headers_flat_plain [of "[]" hdr "body @ rest"] assms(4,5) by simp
  have "read_flat (concat (sk_in (socks w h))) = Some (decode_body body, rest)"
    using hf assms(6) by (simp add: read_flat_def)
  with sock_read_response_flat [OF assms(2,3)]
  obtain cs' where cs': "concat cs' = rest"
    and r: "sock_read_response (socks w h) = Some (decode_body body, (socks w h)\<lparr>sk_in := cs'\<rparr>)"
    by blast
  have "read_response cl w = Some (decode_body body, set_sock w h ((socks w h)\<lparr>sk_in := cs'\<rparr>))"
    using assms(1) r by (simp add: read_response_def)
  moreover have "same_but_input w (set_sock w h ((socks w h)\<lparr>sk_in := cs'\<rparr>))"
    by (rule same_but_input_set_sock) simp
  moreover have "concat (sk_in (socks (set_sock w h ((socks w h)\<lparr>sk_in := cs'\<rparr>)) h)) = rest"
    using cs' by (simp add: set_sock_def)
  ultimately show ?thesis by blast
qed

lemmas loads_eval = json_loads_def lit_def is_prefix_def tok_def scanned_def scan_number_def
  is_digit_def is_num_char_def dec_def pstep_def open_value_def close_array_def close_object_def
  take_key_def push_value_def unescape_def hex4_val_def hex_val_def Let_def

lemmas header_eval = parse_content_length_def split_def lit_def is_prefix_def py_int_def
  strip_def is_space_def is_digit_def Let_def

lemma header16: "parse_content_length (blit ''Content-Length: 16'' @ [13, 10, 13, 10]) = Inr 16"
proof -
  have "blit ''Content-Length: 16'' @ [13, 10, 13, 10 :: byte] = blit (''Content-Length: 16'' @ [CHR 0x0D, CHR 0x0A, CHR 0x0D, CHR 0x0A])"
    by (simp add: blit_def)
  then show ?thesis
    by (simp only: parse_content_length_def decode_blit) (simp add: decode_blit header_eval)
qed

section \<open>Waiting for a response\<close>



lemma send_request_wait_found:
  "read_response cl w = Some (Inr m, w1) \<Longrightarrow> is_response_to command m = Inr True \<Longrightarrow>
   send_request_wait cl w command = Some (Inr m, w1)"
  by (subst send_request_wait.simps) simp




lemma len56: \<open>length (blit ''{"type":"event","event":"stopped","body":{"threadId":7}}'') = 56\<close>
  by (simp add: blit_def)


lemma crlf_blit: "blit s @ [13, 10, 13, 10] = blit (s @ [CHR 0x0D, CHR 0x0A, CHR 0x0D, CHR 0x0A])"
  by (simp add: blit_def)

lemma header56: "parse_content_length (blit ''Content-Length: 56'' @ [13, 10, 13, 10]) = Inr 56"
  unfolding crlf_blit
  by (simp only: parse_content_length_def decode_blit) (simp add: decode_blit header_eval)


lemma body_stopped:
  \<open>decode_body (blit ''{"type":"event","event":"stopped","body":{"threadId":7}}'') = Inr event_stopped\<close>
  by (simp add: decode_body_def decode_blit event_stopped_def loads_eval)


lemma read_frame_step:
  assumes "socket cl = Some h" "sk_connected (socks w h)" "sk_closed (socks w h) = 0"
    and "concat (sk_in (socks w h)) = (hdr @ [13, 10, 13, 10] @ body) @ rest"
    and "13 \<notin> set hdr"
    and "parse_content_length (hdr @ [13, 10, 13, 10]) = Inr (int (length body))"
    and "decode_body body = Inr m"
  shows "\<exists>w'. read_response cl w = Some (Inr m, w')
            \<and> sk_connected (socks w' h) \<and> sk_closed (socks w' h) = 0
            \<and> concat (sk_in (socks w' h)) = rest \<and> same_but_input w w'"
proof -
  from assms(4) have "concat (sk_in (socks w h)) = hdr @ [13, 10, 13, 10] @ body @ rest" by simp
  from read_response_eval [OF assms(1-3) this assms(5,6)] assms(2,3,7)
  show ?thesis by (auto simp: same_but_input_def)
qed

lemma frame_stopped_step:
  assumes "socket cl = Some h" "sk_connected (socks w h)" "sk_closed (socks w h) = 0"
    and "concat (sk_in (socks w h)) = frame_stopped @ rest"
  shows "\<exists>w'. read_response cl w = Some (Inr event_stopped, w')
            \<and> sk_connected (socks w' h) \<and> sk_closed (socks w' h) = 0
            \<and> concat (sk_in (socks w' h)) = rest \<and> same_but_input w w'"
proof (rule read_frame_step [OF assms(1-3)])
  show \<open>concat (sk_in (socks w h)) =
    (blit ''Content-Length: 56'' @ [13, 10, 13, 10]
      @ blit ''{"type":"event","event":"stopped","body":{"threadId":7}}'') @ rest\<close>
    using assms(4) by (simp add: frame_stopped_def)
  show "13 \<notin> set (blit ''Content-Length: 56'')" by (simp add: blit_def)
  show \<open>parse_content_length (blit ''Content-Length: 56'' @ [13, 10, 13, 10])
    = Inr (int (length (blit ''{"type":"event","event":"stopped","body":{"threadId":7}}'')))\<close>
    by (simp only: len56 header56) simp
  show \<open>decode_body (blit ''{"type":"event","event":"stopped","body":{"threadId":7}}'')
    = Inr event_stopped\<close> by (rule body_stopped)
qed






text \<open>
  Claim C4. \<^verbatim>\<open>read_response\<close> does not depend on the sizes of the reads: when the bytes
  pending on the client's socket are cut into chunks in any other way, the call has the
  same outcome (the same message, the same exception, or no return in both cases) and
  leaves the same bytes unread. One chunk holding all bytes is the case of a single
  read.
\<close>

theorem read_response_chunking:
  assumes "socket cl = Some h" and "concat chunks = concat (sk_in (socks w h))"
  shows "map_option (\<lambda>p. (fst p, concat (sk_in (socks (snd p) h))))
           (read_response cl (set_sock w h ((socks w h)\<lparr>sk_in := chunks\<rparr>)))
       = map_option (\<lambda>p. (fst p, concat (sk_in (socks (snd p) h)))) (read_response cl w)"
proof -
  let ?t = "(socks w h)\<lparr>sk_in := chunks\<rparr>"
  have "socks (set_sock w h ?t) h = ?t" by (simp add: set_sock_def)
  then show ?thesis
    using sock_read_response_input [of ?t "socks w h"] assms
    by (simp add: read_response_sock)
qed

text \<open>
  Witness for C4: the frame of the \<^verbatim>\<open>stopped\<close> event cut into four chunks, one cut inside
  the header terminator and one inside the body, against the frame in one chunk; both
  give the event and leave nothing unread.
\<close>

theorem read_response_chunking_witness:
  \<open>map_option (\<lambda>p. (fst p, concat (sk_in (socks (snd p) 0))))
     (read_response connected_client
        (set_sock (connected_world [frame_stopped]) 0
           ((socks (connected_world [frame_stopped]) 0)
              \<lparr>sk_in := [blit ''Content-Len'', blit ''gth: 56'' @ [13, 10, 13],
                         [10] @ blit ''{"type":"event","ev'',
                         blit ''ent":"stopped","body":{"threadId":7}}'']\<rparr>)))
   = map_option (\<lambda>p. (fst p, concat (sk_in (socks (snd p) 0))))
       (read_response connected_client (connected_world [frame_stopped]))
   \<and> map_option (\<lambda>p. (fst p, concat (sk_in (socks (snd p) 0))))
       (read_response connected_client (connected_world [frame_stopped]))
     = Some (Inr event_stopped, [])\<close>
proof -
  have h: \<open>concat [blit ''Content-Len'', blit ''gth: 56'' @ [13, 10, 13],
                   [10] @ blit ''{"type":"event","ev'',
                   blit ''ent":"stopped","body":{"threadId":7}}'']
          = concat (sk_in (socks (connected_world [frame_stopped]) 0))\<close>
    by (simp add: connected_world_sock0 frame_stopped_def blit_def)
  have c: "sk_connected (socks (connected_world [frame_stopped]) 0)"
    "sk_closed (socks (connected_world [frame_stopped]) 0) = 0"
    "concat (sk_in (socks (connected_world [frame_stopped]) 0)) = frame_stopped @ []"
    by (simp_all add: connected_world_sock0 new_sock_def)
  from frame_stopped_step [OF connected_client_ready(1) c] obtain w'
    where "read_response connected_client (connected_world [frame_stopped])
             = Some (Inr event_stopped, w')"
      and "concat (sk_in (socks w' 0)) = []" by auto
  then have v: "map_option (\<lambda>p. (fst p, concat (sk_in (socks (snd p) 0))))
       (read_response connected_client (connected_world [frame_stopped]))
     = Some (Inr event_stopped, [])" by simp
  from read_response_chunking [OF connected_client_ready(1) h] v show ?thesis by blast
qed

section \<open>Waiting for an event\<close>

lemma wait_event_loop_found:
  "read_response cl w = Some (Inr m, w1) \<Longrightarrow> is_event name m = Inr True \<Longrightarrow>
   wait_event_loop cl w name = Some (Inr m, w1)"
  by (subst wait_event_loop.simps) simp








section \<open>Failures of \<^verbatim>\<open>read_response\<close>\<close>

lemma split_go_no_sep: "\<not> contains sep xs \<Longrightarrow> split_go sep xs cur = [cur @ xs]"
  by (induction xs arbitrary: cur) auto

lemma parse_content_length_missing:
  "decode_utf8 headers = Inr header_str \<Longrightarrow> \<not> contains (lit ''Content-Length: '') header_str \<Longrightarrow>
   parse_content_length headers = Inl IndexError"
  by (simp add: parse_content_length_def split_def split_go_no_sep)




lemma read_response_flat:
  assumes "socket cl = Some h" "sk_connected (socks w h)" "sk_closed (socks w h) = 0"
  shows "map_option fst (read_response cl w) = map_option fst (read_flat (concat (sk_in (socks w h))))"
proof -
  have "map_option fst (map_option (\<lambda>p. (fst p, concat (sk_in (socks (snd p) h)))) (read_response cl w))
      = map_option fst (read_flat (concat (sk_in (socks w h))))"
    using assms by (simp only: read_response_sock sock_read_response_concat)
  then show ?thesis by (simp add: option.map_comp comp_def)
qed


lemma no_protocol_error: "''ProtocolError'' \<notin> set (exn_mro e)"
  by (cases e) simp_all

lemma header_x: "decode_utf8 (blit ''X'' @ [13, 10, 13, 10]) = Inr (lit ''X'' @ [13, 10, 13, 10])"
  unfolding crlf_blit by (simp add: decode_blit) (simp add: lit_def)






section \<open>Setting breakpoints\<close>






section \<open>Teardown of the session\<close>

lemma kept_refl: "kept cl w cl w"
  by (simp add: kept_def)

lemma kept_trans: "kept cl w cl1 w1 \<Longrightarrow> kept cl1 w1 cl2 w2 \<Longrightarrow> kept cl w cl2 w2"
  by (simp add: kept_def)

lemma same_but_input_kept: "same_but_input w w' \<Longrightarrow> kept cl w cl w'"
  by (simp add: kept_def same_but_input_def)

lemma send_request_write_kept:
  "send_request_write cl w c a = (r, cl', w') \<Longrightarrow> kept cl w cl' w'"
  by (auto simp: send_request_write_def Let_def kept_def set_sock_def sock_send_def
           split: sum.splits option.splits if_splits)

lemma send_request_kept:
  assumes "send_request cl w c a wt = Some (r, cl', w')"
  shows "kept cl w cl' w'"
proof -
  obtain r0 cl0 w0 where wr: "send_request_write cl w c a = (r0, cl0, w0)"
    by (cases "send_request_write cl w c a") auto
  then have k0: "kept cl w cl0 w0" by (rule send_request_write_kept)
  show ?thesis
  proof (cases "\<exists>u. r0 = Inr u \<and> wt")
    case False
    with assms wr have "cl' = cl0 \<and> w' = w0"
      by (auto simp: send_request_def split: sum.splits if_splits)
    with k0 show ?thesis by simp
  next
    case True
    with assms wr obtain y where y: "send_request_wait cl0 w0 c = Some y"
      and res: "cl' = cl0" "w' = snd y"
      by (auto simp: send_request_def split: option.splits)
    from send_request_wait_frame [OF y] have "kept cl0 w0 cl0 (snd y)" by (rule same_but_input_kept)
    with k0 res show ?thesis using kept_trans by blast
  qed
qed

lemma wait_event_loop_kept:
  "wait_event_loop cl w name = Some (r, w') \<Longrightarrow> kept cl w cl w'"
  using wait_event_loop_frame [of cl w name "(r, w')"] by (simp add: same_but_input_kept)

lemma initialize_session_kept:
  assumes "initialize_session cl w = Some (r, cl', w')"
  shows "kept cl w cl' w'"
proof -
  from assms obtain r1 cl1 w1
    where s1: "send_request cl w (lit ''initialize'') (Some initialize_arguments) True = Some (r1, cl1, w1)"
    by (auto simp: initialize_session_def split: option.splits)
  note k1 = send_request_kept [OF s1]
  show ?thesis
  proof (cases r1)
    case (Inl e)
    with assms s1 have "cl' = cl1 \<and> w' = w1" by (simp add: initialize_session_def)
    with k1 show ?thesis by simp
  next
    case (Inr v1)
    with assms s1 obtain r2 cl2 w2
      where s2: "send_request cl1 w1 (lit ''attach'') (Some (attach_arguments cl1)) False = Some (r2, cl2, w2)"
      by (auto simp: initialize_session_def split: option.splits)
    note k2 = kept_trans [OF k1 send_request_kept [OF s2]]
    show ?thesis
    proof (cases r2)
      case (Inl e)
      with assms s1 s2 Inr have "cl' = cl2 \<and> w' = w2" by (simp add: initialize_session_def)
      with k2 show ?thesis by simp
    next
      case i2: (Inr v2)
      with assms s1 s2 Inr obtain r3 w3
        where s3: "wait_event_loop cl2 w2 (lit ''initialized'') = Some (r3, w3)"
          and res: "cl' = cl2" "w' = w3"
        by (auto simp: initialize_session_def split: option.splits sum.splits)
      from kept_trans [OF k2 wait_event_loop_kept [OF s3]] res show ?thesis by simp
    qed
  qed
qed

lemma inspect_scopes_kept:
  "inspect_scopes cl w scopes = Some (r, cl', w') \<Longrightarrow> kept cl w cl' w'"
proof (induction scopes arbitrary: cl w)
  case Nil
  then show ?case by (simp add: kept_refl)
next
  case (Cons scope scopes)
  show ?case
  proof (cases "\<exists>n ref. py_item scope (lit ''name'') = Inr n
                 \<and> py_item scope (lit ''variablesReference'') = Inr ref")
    case False
    with Cons.prems have "cl' = cl \<and> w' = w" by (auto split: sum.splits)
    then show ?thesis by (simp add: kept_refl)
  next
    case True
    then obtain n ref where n: "py_item scope (lit ''name'') = Inr n"
      and ref: "py_item scope (lit ''variablesReference'') = Inr ref" by blast
    with Cons.prems obtain r1 cl1 w1 where g: "get_variables cl w ref = Some (r1, cl1, w1)"
      by (auto split: option.splits)
    then have k1: "kept cl w cl1 w1" by (simp add: get_variables_def send_request_kept)
    show ?thesis
    proof (cases "inspect_scopes cl1 w1 scopes = Some (r, cl', w')")
      case True
      from kept_trans [OF k1 Cons.IH [OF True]] show ?thesis .
    next
      case False
      with Cons.prems n ref g have "cl' = cl1 \<and> w' = w1"
        by (auto split: sum.splits)
      with k1 show ?thesis by simp
    qed
  qed
qed

lemma inspect_stopped_cases:
  assumes "inspect_stopped cl w response = Some (r, cl', w')"
  shows "(cl' = cl \<and> w' = w)
       \<or> (\<exists>tid r1. get_stack_trace cl w tid = Some (r1, cl', w'))
       \<or> (\<exists>tid r1 cl1 w1 fid r2.
             get_stack_trace cl w tid = Some (r1, cl1, w1)
           \<and> (get_scopes cl1 w1 fid = Some (r2, cl', w')
              \<or> (\<exists>cl2 w2 scopes. get_scopes cl1 w1 fid = Some (r2, cl2, w2)
                   \<and> inspect_scopes cl2 w2 scopes = Some (r, cl', w'))))"
  using assms unfolding inspect_stopped_def
  by (auto split: sum.splits option.splits)

lemma inspect_stopped_kept:
  assumes "inspect_stopped cl w response = Some (r, cl', w')"
  shows "kept cl w cl' w'"
  using inspect_stopped_cases [OF assms]
  by (auto simp: get_stack_trace_def get_scopes_def kept_refl
           dest!: send_request_kept inspect_scopes_kept intro: kept_trans)

lemma connect_result:
  assumes "connect cl w host port = (r, cl0, w0)"
  shows "socket cl0 = Some (nsocks w)" "sk_closed (socks w0 (nsocks w)) = 0"
    "procs w0 = procs w" "nprocs w0 = nprocs w"
    "h \<noteq> nsocks w \<Longrightarrow> socks w0 h = socks w h"
  using assms
  by (auto simp: connect_def Let_def set_sock_def new_sock_def split: option.splits)

lemma session_body_kept:
  assumes sb: "session_body dbg w = Some (r, cl', w')"
    and co: "connect (client dbg) w (lit ''localhost'') (dbg_debug_port dbg) = (r0, cl0, w0)"
  shows "kept cl0 w0 cl' w'"
proof (cases r0)
  case (Inl e)
  with sb co have "cl' = cl0 \<and> w' = w0" by (simp add: session_body_def)
  then show ?thesis by (simp add: kept_refl)
next
  case u0: (Inr u0)
  with sb co obtain r1 cl1 w1 where s1: "initialize_session cl0 w0 = Some (r1, cl1, w1)"
    by (auto simp: session_body_def split: option.splits)
  note k1 = initialize_session_kept [OF s1]
  show ?thesis
  proof (cases r1)
    case (Inl e)
    with sb co u0 s1 have "cl' = cl1 \<and> w' = w1" by (simp add: session_body_def)
    with k1 show ?thesis by simp
  next
    case u1: (Inr u1)
    with sb co u0 s1 obtain r2 cl2 w2
      where s2: "set_breakpoints cl1 w1 (lit ''demo/main.py'') [99] = Some (r2, cl2, w2)"
      by (auto simp: session_body_def split: option.splits)
    from s2 have "kept cl1 w1 cl2 w2" by (simp add: set_breakpoints_def send_request_kept)
    note k2 = kept_trans [OF k1 this]
    show ?thesis
    proof (cases r2)
      case (Inl e)
      with sb co u0 s1 u1 s2 have "cl' = cl2 \<and> w' = w2" by (simp add: session_body_def)
      with k2 show ?thesis by simp
    next
      case u2: (Inr u2)
      with sb co u0 s1 u1 s2 obtain r3 cl3 w3
        where s3: "configuration_done cl2 w2 = Some (r3, cl3, w3)"
        by (auto simp: session_body_def split: option.splits)
      from s3 have "kept cl2 w2 cl3 w3" by (simp add: configuration_done_def send_request_kept)
      note k3 = kept_trans [OF k2 this]
      show ?thesis
      proof (cases r3)
        case (Inl e)
        with sb co u0 s1 u1 s2 u2 s3 have "cl' = cl3 \<and> w' = w3" by (simp add: session_body_def)
        with k3 show ?thesis by simp
      next
        case u3: (Inr u3)
        with sb co u0 s1 u1 s2 u2 s3 obtain r4 w4
          where s4: "wait_event_loop cl3 w3 (lit ''stopped'') = Some (r4, w4)"
          by (auto simp: session_body_def split: option.splits)
        note k4 = kept_trans [OF k3 wait_event_loop_kept [OF s4]]
        show ?thesis
        proof (cases r4)
          case (Inl e)
          with sb co u0 s1 u1 s2 u2 s3 u3 s4 have "cl' = cl3 \<and> w' = w4"
            by (simp add: session_body_def)
          with k4 show ?thesis by simp
        next
          case (Inr response)
          with sb co u0 s1 u1 s2 u2 s3 u3 s4
          have "inspect_stopped cl3 w4 response = Some (r, cl', w')"
            by (simp add: session_body_def)
          from kept_trans [OF k4 inspect_stopped_kept [OF this]] show ?thesis .
        qed
      qed
    qed
  qed
qed

lemma session_body_result:
  assumes "session_body dbg w = Some (r, cl', w')"
  shows "socket cl' = Some (nsocks w)" "sk_closed (socks w' (nsocks w)) = 0"
    "procs w' = procs w" "h \<noteq> nsocks w \<Longrightarrow> sk_closed (socks w' h) = sk_closed (socks w h)"
proof -
  obtain r0 cl0 w0
    where co: "connect (client dbg) w (lit ''localhost'') (dbg_debug_port dbg) = (r0, cl0, w0)"
    by (cases "connect (client dbg) w (lit ''localhost'') (dbg_debug_port dbg)") auto
  note k = session_body_kept [OF assms co]
  note c = connect_result [OF co]
  from k c(1) show "socket cl' = Some (nsocks w)" by (simp add: kept_def)
  from k c(2) show "sk_closed (socks w' (nsocks w)) = 0" by (simp add: kept_def)
  from k c(3) show "procs w' = procs w" by (simp add: kept_def)
  show "sk_closed (socks w' h) = sk_closed (socks w h)" if "h \<noteq> nsocks w"
    using k c(5) [OF that] by (simp add: kept_def)
qed

lemma garbage_session:
  assumes "peers w (lit ''localhost'') 5678 = Some [blit ''X'' @ [13, 10, 13, 10]]"
  shows "\<exists>cl1 w1. session_body DAPDebugger_init w = Some (Inl IndexError, cl1, w1)"
proof -
  let ?h = "nsocks w"
  let ?cl0 = "DAPClient_init\<lparr>socket := Some ?h\<rparr>"
  obtain w0 where co: "connect (client DAPDebugger_init) w (lit ''localhost'')
        (dbg_debug_port DAPDebugger_init) = (Inr (), ?cl0, w0)"
    and s0: "sk_connected (socks w0 ?h)" "sk_closed (socks w0 ?h) = 0"
      "sk_in (socks w0 ?h) = [blit ''X'' @ [13, 10, 13, 10]]"
    using assms by (simp add: connect_def Let_def DAPDebugger_init_def set_sock_def new_sock_def)
  have sc: "socket ?cl0 = Some ?h" by simp
  let ?cl1 = "?cl0\<lparr>seq := seq ?cl0 + 1\<rparr>"
  let ?w1 = "set_sock w0 ?h ((socks w0 ?h)\<lparr>sk_sent := sk_sent (socks w0 ?h)
      @ [request_bytes (seq ?cl0) (lit ''initialize'') (Some initialize_arguments)]\<rparr>)"
  have wr: "send_request_write ?cl0 w0 (lit ''initialize'') (Some initialize_arguments)
      = (Inr (), ?cl1, ?w1)"
    by (rule send_request_write_ok [OF sc s0(1,2)])
  have c1: "socket ?cl1 = Some ?h" "sk_connected (socks ?w1 ?h)" "sk_closed (socks ?w1 ?h) = 0"
    using s0 by (simp_all add: set_sock_def)
  have "headers_flat (concat (sk_in (socks ?w1 ?h))) [] = Some (blit ''X'' @ [13, 10, 13, 10], [])"
    using headers_flat_plain [of "[]" "blit ''X''" "[]"] s0(3)
    by (simp add: set_sock_def blit_def)
  moreover have "parse_content_length (blit ''X'' @ [13, 10, 13, 10]) = Inl IndexError"
    using parse_content_length_missing [OF header_x] by (simp add: lit_def is_prefix_def)
  ultimately have "read_flat (concat (sk_in (socks ?w1 ?h))) = Some (Inl IndexError, [])"
    by (simp add: read_flat_def)
  then have "map_option fst (read_flat (concat (sk_in (socks ?w1 ?h)))) = Some (Inl IndexError)"
    by simp
  with read_response_flat [OF c1]
  have "map_option fst (read_response ?cl1 ?w1) = Some (Inl IndexError)"
    by (rule trans)
  then obtain w2 where rr: "read_response ?cl1 ?w1 = Some (Inl IndexError, w2)" by auto
  have "send_request_wait ?cl1 ?w1 (lit ''initialize'') = Some (Inl IndexError, w2)"
    using rr by (subst send_request_wait.simps) simp
  with wr have "send_request ?cl0 w0 (lit ''initialize'') (Some initialize_arguments) True
      = Some (Inl IndexError, ?cl1, w2)"
    by (simp add: send_request_def)
  then have "initialize_session ?cl0 w0 = Some (Inl IndexError, ?cl1, w2)"
    by (simp add: initialize_session_def)
  with co have "session_body DAPDebugger_init w = Some (Inl IndexError, ?cl1, w2)"
    by (simp add: session_body_def)
  then show ?thesis by blast
qed

text \<open>
  Claim C6. Whenever \<^verbatim>\<open>start_debug_session\<close> returns after the debuggee was spawned, be it
  after a handshake that ran to its end or after an exception at any step of it, the
  teardown has run: the method returns None, the process it spawned was terminated once
  and waited for once, and the socket of the session (the one \<^verbatim>\<open>connect\<close> created, which
  the client holds) was closed once. No other process and no other socket was touched.
\<close>

theorem start_debug_session_teardown:
  assumes "can_spawn w" and "start_debug_session dbg w = Some (r, dbg', w')"
  shows "r = Inr ()
       \<and> pr_terminated (procs w' (nprocs w)) = 1 \<and> pr_waited (procs w' (nprocs w)) = 1
       \<and> socket (client dbg') = Some (nsocks w) \<and> sk_closed (socks w' (nsocks w)) = 1
       \<and> (\<forall>p. p \<noteq> nprocs w \<longrightarrow> procs w' p = procs w p)
       \<and> (\<forall>h. h \<noteq> nsocks w \<longrightarrow> sk_closed (socks w' h) = sk_closed (socks w h))"
proof -
  let ?w0 = "w\<lparr>procs := (procs w)(nprocs w := \<lparr>pr_terminated = 0, pr_waited = 0\<rparr>),
               nprocs := nprocs w + 1\<rparr>"
  from assms obtain rb cl1 w1 where sb: "session_body dbg ?w0 = Some (rb, cl1, w1)"
    and res: "r = Inr ()" "dbg' = dbg\<lparr>client := cl1\<rparr>" "w' = teardown cl1 w1 (nprocs w)"
    by (auto simp: start_debug_session_def Let_def split: option.splits)
  note b = session_body_result [OF sb]
  have ns: "nsocks ?w0 = nsocks w" by simp
  from b(1) ns have s: "socket cl1 = Some (nsocks w)" by simp
  from b(2) ns have c0: "sk_closed (socks w1 (nsocks w)) = 0" by simp
  from b(3) have p: "procs w1 = (procs w)(nprocs w := \<lparr>pr_terminated = 0, pr_waited = 0\<rparr>)" by simp
  have other: "\<forall>h. h \<noteq> nsocks w \<longrightarrow> sk_closed (socks w1 h) = sk_closed (socks w h)"
    using b(4) ns by simp
  from res s c0 p other show ?thesis
    by (simp add: teardown_def terminate_def wait_def set_sock_def sock_close_def)
qed

text \<open>
  Witness for C6: the adapter answers the \<^verbatim>\<open>initialize\<close> request with a header block that
  has no Content-Length. The handshake fails with IndexError in its first step, and the
  socket is closed and the process terminated and reaped all the same.
\<close>

theorem start_debug_session_teardown_witness:
  "\<exists>dbg' w'. start_debug_session DAPDebugger_init (stub_world [blit ''X'' @ [13, 10, 13, 10]])
        = Some (Inr (), dbg', w')
     \<and> pr_terminated (procs w' 0) = 1 \<and> pr_waited (procs w' 0) = 1
     \<and> socket (client dbg') = Some 0 \<and> sk_closed (socks w' 0) = 1"
proof -
  let ?w = "stub_world [blit ''X'' @ [13, 10, 13, 10]]"
  let ?ws = "?w\<lparr>procs := (procs ?w)(nprocs ?w := \<lparr>pr_terminated = 0, pr_waited = 0\<rparr>),
               nprocs := nprocs ?w + 1\<rparr>"
  have f: "can_spawn ?w" "nprocs ?w = 0" "nsocks ?w = 0"
    by (simp_all add: stub_world_def idle_world_def)
  have "peers ?ws (lit ''localhost'') 5678 = Some [blit ''X'' @ [13, 10, 13, 10]]"
    by (simp add: stub_world_def)
  from garbage_session [OF this] obtain cl1 w1
    where "session_body DAPDebugger_init ?ws = Some (Inl IndexError, cl1, w1)" by blast
  with f(1) have run: "start_debug_session DAPDebugger_init ?w
      = Some (Inr (), DAPDebugger_init\<lparr>client := cl1\<rparr>, teardown cl1 w1 (nprocs ?w))"
    by (simp add: start_debug_session_def Let_def)
  from start_debug_session_teardown [OF f(1) run]
  have "pr_terminated (procs (teardown cl1 w1 (nprocs ?w)) 0) = 1
      \<and> pr_waited (procs (teardown cl1 w1 (nprocs ?w)) 0) = 1
      \<and> socket (client (DAPDebugger_init\<lparr>client := cl1\<rparr>)) = Some 0
      \<and> sk_closed (socks (teardown cl1 w1 (nprocs ?w)) 0) = 1"
    unfolding f(2) f(3) by blast
  with run show ?thesis by blast
qed

section \<open>A whole session\<close>

lemma carries_initialize:
  \<open>carries (blit ''Content-Length: 91'') (blit ''{"seq":1,"type":"response","request_seq":1,"command":"initialize","success":true,"body":{}}'') response_initialize\<close>
  unfolding carries_def
proof (intro conjI)
  show "13 \<notin> set (blit ''Content-Length: 91'')" by (simp add: blit_def)
  have \<open>int (length (blit ''{"seq":1,"type":"response","request_seq":1,"command":"initialize","success":true,"body":{}}'')) = 91\<close>
    by (simp add: blit_def)
  moreover have "parse_content_length (blit ''Content-Length: 91'' @ [13, 10, 13, 10]) = Inr 91"
    unfolding crlf_blit
    by (simp only: parse_content_length_def decode_blit) (simp add: decode_blit header_eval)
  ultimately show \<open>parse_content_length (blit ''Content-Length: 91'' @ [13, 10, 13, 10])
      = Inr (int (length (blit ''{"seq":1,"type":"response","request_seq":1,"command":"initialize","success":true,"body":{}}'')))\<close> by simp
  show \<open>decode_body (blit ''{"seq":1,"type":"response","request_seq":1,"command":"initialize","success":true,"body":{}}'') = Inr response_initialize\<close>
    by (simp add: decode_body_def decode_blit response_initialize_def loads_eval)
qed

lemma carries_initialized:
  \<open>carries (blit ''Content-Length: 48'') (blit ''{"type":"event","event":"initialized","body":{}}'') event_initialized\<close>
  unfolding carries_def
proof (intro conjI)
  show "13 \<notin> set (blit ''Content-Length: 48'')" by (simp add: blit_def)
  have \<open>int (length (blit ''{"type":"event","event":"initialized","body":{}}'')) = 48\<close>
    by (simp add: blit_def)
  moreover have "parse_content_length (blit ''Content-Length: 48'' @ [13, 10, 13, 10]) = Inr 48"
    unfolding crlf_blit
    by (simp only: parse_content_length_def decode_blit) (simp add: decode_blit header_eval)
  ultimately show \<open>parse_content_length (blit ''Content-Length: 48'' @ [13, 10, 13, 10])
      = Inr (int (length (blit ''{"type":"event","event":"initialized","body":{}}'')))\<close> by simp
  show \<open>decode_body (blit ''{"type":"event","event":"initialized","body":{}}'') = Inr event_initialized\<close>
    by (simp add: decode_body_def decode_blit event_initialized_def loads_eval)
qed

lemma carries_configuration_done:
  \<open>carries (blit ''Content-Length: 49'') (blit ''{"type":"response","command":"configurationDone"}'') response_configuration_done\<close>
  unfolding carries_def
proof (intro conjI)
  show "13 \<notin> set (blit ''Content-Length: 49'')" by (simp add: blit_def)
  have \<open>int (length (blit ''{"type":"response","command":"configurationDone"}'')) = 49\<close>
    by (simp add: blit_def)
  moreover have "parse_content_length (blit ''Content-Length: 49'' @ [13, 10, 13, 10]) = Inr 49"
    unfolding crlf_blit
    by (simp only: parse_content_length_def decode_blit) (simp add: decode_blit header_eval)
  ultimately show \<open>parse_content_length (blit ''Content-Length: 49'' @ [13, 10, 13, 10])
      = Inr (int (length (blit ''{"type":"response","command":"configurationDone"}'')))\<close> by simp
  show \<open>decode_body (blit ''{"type":"response","command":"configurationDone"}'') = Inr response_configuration_done\<close>
    by (simp add: decode_body_def decode_blit response_configuration_done_def loads_eval)
qed

lemma carries_stack_trace:
  \<open>carries (blit ''Content-Length: 78'') (blit ''{"type":"response","command":"stackTrace","body":{"stackFrames":[{"id":100}]}}'') response_stack_trace\<close>
  unfolding carries_def
proof (intro conjI)
  show "13 \<notin> set (blit ''Content-Length: 78'')" by (simp add: blit_def)
  have \<open>int (length (blit ''{"type":"response","command":"stackTrace","body":{"stackFrames":[{"id":100}]}}'')) = 78\<close>
    by (simp add: blit_def)
  moreover have "parse_content_length (blit ''Content-Length: 78'' @ [13, 10, 13, 10]) = Inr 78"
    unfolding crlf_blit
    by (simp only: parse_content_length_def decode_blit) (simp add: decode_blit header_eval)
  ultimately show \<open>parse_content_length (blit ''Content-Length: 78'' @ [13, 10, 13, 10])
      = Inr (int (length (blit ''{"type":"response","command":"stackTrace","body":{"stackFrames":[{"id":100}]}}'')))\<close> by simp
  show \<open>decode_body (blit ''{"type":"response","command":"stackTrace","body":{"stackFrames":[{"id":100}]}}'') = Inr response_stack_trace\<close>
    by (simp add: decode_body_def decode_blit response_stack_trace_def loads_eval)
qed

lemma carries_scopes:
  \<open>carries (blit ''Content-Length: 100'') (blit ''{"type":"response","command":"scopes","body":{"scopes":[{"name":"Locals","variablesReference":55}]}}'') response_scopes\<close>
  unfolding carries_def
proof (intro conjI)
  show "13 \<notin> set (blit ''Content-Length: 100'')" by (simp add: blit_def)
  have \<open>int (length (blit ''{"type":"response","command":"scopes","body":{"scopes":[{"name":"Locals","variablesReference":55}]}}'')) = 100\<close>
    by (simp add: blit_def)
  moreover have "parse_content_length (blit ''Content-Length: 100'' @ [13, 10, 13, 10]) = Inr 100"
    unfolding crlf_blit
    by (simp only: parse_content_length_def decode_blit) (simp add: decode_blit header_eval)
  ultimately show \<open>parse_content_length (blit ''Content-Length: 100'' @ [13, 10, 13, 10])
      = Inr (int (length (blit ''{"type":"response","command":"scopes","body":{"scopes":[{"name":"Locals","variablesReference":55}]}}'')))\<close> by simp
  show \<open>decode_body (blit ''{"type":"response","command":"scopes","body":{"scopes":[{"name":"Locals","variablesReference":55}]}}'') = Inr response_scopes\<close>
    by (simp add: decode_body_def decode_blit response_scopes_def loads_eval)
qed

lemma carries_variables:
  \<open>carries (blit ''Content-Length: 90'') (blit ''{"type":"response","command":"variables","body":{"variables":[{"name":"x","value":"42"}]}}'') response_variables\<close>
  unfolding carries_def
proof (intro conjI)
  show "13 \<notin> set (blit ''Content-Length: 90'')" by (simp add: blit_def)
  have \<open>int (length (blit ''{"type":"response","command":"variables","body":{"variables":[{"name":"x","value":"42"}]}}'')) = 90\<close>
    by (simp add: blit_def)
  moreover have "parse_content_length (blit ''Content-Length: 90'' @ [13, 10, 13, 10]) = Inr 90"
    unfolding crlf_blit
    by (simp only: parse_content_length_def decode_blit) (simp add: decode_blit header_eval)
  ultimately show \<open>parse_content_length (blit ''Content-Length: 90'' @ [13, 10, 13, 10])
      = Inr (int (length (blit ''{"type":"response","command":"variables","body":{"variables":[{"name":"x","value":"42"}]}}'')))\<close> by simp
  show \<open>decode_body (blit ''{"type":"response","command":"variables","body":{"variables":[{"name":"x","value":"42"}]}}'') = Inr response_variables\<close>
    by (simp add: decode_body_def decode_blit response_variables_def loads_eval)
qed

lemma carries_stopped:
  \<open>carries (blit ''Content-Length: 56'') (blit ''{"type":"event","event":"stopped","body":{"threadId":7}}'') event_stopped\<close>
  unfolding carries_def
proof (intro conjI)
  show "13 \<notin> set (blit ''Content-Length: 56'')" by (simp add: blit_def)
  have \<open>int (length (blit ''{"type":"event","event":"stopped","body":{"threadId":7}}'')) = 56\<close>
    by (simp add: blit_def)
  moreover have "parse_content_length (blit ''Content-Length: 56'' @ [13, 10, 13, 10]) = Inr 56"
    unfolding crlf_blit
    by (simp only: parse_content_length_def decode_blit) (simp add: decode_blit header_eval)
  ultimately show \<open>parse_content_length (blit ''Content-Length: 56'' @ [13, 10, 13, 10])
      = Inr (int (length (blit ''{"type":"event","event":"stopped","body":{"threadId":7}}'')))\<close> by simp
  show \<open>decode_body (blit ''{"type":"event","event":"stopped","body":{"threadId":7}}'') = Inr event_stopped\<close>
    by (simp add: decode_body_def decode_blit event_stopped_def loads_eval)
qed

lemma carries_set_breakpoints:
  \<open>carries (blit ''Content-Length: 46'') (blit ''{"type":"response","command":"setBreakpoints"}'') response_set_breakpoints\<close>
  unfolding carries_def
proof (intro conjI)
  show "13 \<notin> set (blit ''Content-Length: 46'')" by (simp add: blit_def)
  have \<open>int (length (blit ''{"type":"response","command":"setBreakpoints"}'')) = 46\<close>
    by (simp add: blit_def)
  moreover have "parse_content_length (blit ''Content-Length: 46'' @ [13, 10, 13, 10]) = Inr 46"
    unfolding crlf_blit
    by (simp only: parse_content_length_def decode_blit) (simp add: decode_blit header_eval)
  ultimately show \<open>parse_content_length (blit ''Content-Length: 46'' @ [13, 10, 13, 10])
      = Inr (int (length (blit ''{"type":"response","command":"setBreakpoints"}'')))\<close> by simp
  show \<open>decode_body (blit ''{"type":"response","command":"setBreakpoints"}'') = Inr response_set_breakpoints\<close>
    by (simp add: decode_body_def decode_blit response_set_breakpoints_def loads_eval)
qed

lemma request_unanswered:
  assumes "session_at cl w h n inp sent wd"
  shows "\<exists>cl' w'. send_request cl w command arguments False = Some (Inr None, cl', w')
           \<and> session_at cl' w' h (n + 1) inp (sent @ [request_bytes n command arguments]) wd"
proof -
  from assms have s: "socket cl = Some h" "sk_connected (socks w h)" "sk_closed (socks w h) = 0"
    by (simp_all add: session_at_def)
  from send_request_no_wait_ok [OF s, of command arguments] assms show ?thesis
    by (simp add: session_at_def set_sock_def)
qed

lemma request_answered:
  assumes at: "session_at cl w h n ((hdr @ [13, 10, 13, 10] @ body) @ rest) sent wd"
    and fr: "carries hdr body m" and hit: "is_response_to command m = Inr True"
  shows "\<exists>cl' w'. send_request cl w command arguments True = Some (Inr (Some m), cl', w')
           \<and> session_at cl' w' h (n + 1) rest (sent @ [request_bytes n command arguments]) wd"
proof -
  from at have s: "socket cl = Some h" "sk_connected (socks w h)" "sk_closed (socks w h) = 0"
    by (simp_all add: session_at_def)
  let ?cl1 = "cl\<lparr>seq := seq cl + 1\<rparr>"
  let ?w1 = "set_sock w h ((socks w h)\<lparr>sk_sent := sk_sent (socks w h)
      @ [request_bytes (seq cl) command arguments]\<rparr>)"
  have wr: "send_request_write cl w command arguments = (Inr (), ?cl1, ?w1)"
    by (rule send_request_write_ok [OF s])
  have at1: "session_at ?cl1 ?w1 h (n + 1) ((hdr @ [13, 10, 13, 10] @ body) @ rest)
      (sent @ [request_bytes n command arguments]) wd"
    using at by (simp add: session_at_def set_sock_def)
  have s1: "socket ?cl1 = Some h" "sk_connected (socks ?w1 h)" "sk_closed (socks ?w1 h) = 0"
    "concat (sk_in (socks ?w1 h)) = (hdr @ [13, 10, 13, 10] @ body) @ rest"
    using at by (simp_all add: session_at_def set_sock_def)
  from fr have c: "13 \<notin> set hdr"
    "parse_content_length (hdr @ [13, 10, 13, 10]) = Inr (int (length body))"
    "decode_body body = Inr m" by (simp_all add: carries_def)
  from read_frame_step [OF s1 c] obtain w2
    where r: "read_response ?cl1 ?w1 = Some (Inr m, w2)"
      and c2: "concat (sk_in (socks w2 h)) = rest" and sb: "same_but_input ?w1 w2" by blast
  from r hit have "send_request_wait ?cl1 ?w1 command = Some (Inr m, w2)"
    by (rule send_request_wait_found)
  with wr have call: "send_request cl w command arguments True = Some (Inr (Some m), ?cl1, w2)"
    by (simp add: send_request_def)
  have "session_at ?cl1 w2 h (n + 1) rest (sent @ [request_bytes n command arguments]) wd"
    using at c2 sb by (simp add: session_at_def same_but_input_def set_sock_def)
  with call show ?thesis by blast
qed

lemma event_awaited:
  assumes at: "session_at cl w h n ((hdr @ [13, 10, 13, 10] @ body) @ rest) sent wd"
    and fr: "carries hdr body m" and hit: "is_event name m = Inr True"
  shows "\<exists>w'. wait_event_loop cl w name = Some (Inr m, w') \<and> session_at cl w' h n rest sent wd"
proof -
  from at have s: "socket cl = Some h" "sk_connected (socks w h)" "sk_closed (socks w h) = 0"
    "concat (sk_in (socks w h)) = (hdr @ [13, 10, 13, 10] @ body) @ rest"
    by (simp_all add: session_at_def)
  from fr have c: "13 \<notin> set hdr"
    "parse_content_length (hdr @ [13, 10, 13, 10]) = Inr (int (length body))"
    "decode_body body = Inr m" by (simp_all add: carries_def)
  from read_frame_step [OF s c] obtain w2
    where r: "read_response cl w = Some (Inr m, w2)"
      and c2: "concat (sk_in (socks w2 h)) = rest" and sb: "same_but_input w w2" by blast
  from r hit have call: "wait_event_loop cl w name = Some (Inr m, w2)"
    by (rule wait_event_loop_found)
  have "session_at cl w2 h n rest sent wd"
    using at c2 sb by (simp add: session_at_def same_but_input_def)
  with call show ?thesis by blast
qed

lemma connect_session:
  assumes "peers w (lit ''localhost'') 5678 = Some chunks"
  shows "\<exists>cl0 w0. connect DAPClient_init w (lit ''localhost'') 5678 = (Inr (), cl0, w0)
           \<and> session_at cl0 w0 (nsocks w) 1 (concat chunks) [] (cwd w)"
  using assms
  by (simp add: connect_def Let_def session_at_def set_sock_def new_sock_def DAPClient_init_def)

end
